theory Spec2Isabelle
  imports Main "HOL-Library.Word" "HOL-Library.Monad_Syntax"
begin

unbundle bit_operations_syntax

section \<open>Common data\<close>

type_synonym byte = "8 word"
type_synonym sample = "16 word"
type_synonym u32 = "32 word"
type_synonym size_t = "64 word"

text \<open>
  Return code of \<^verbatim>\<open>pthread_cond_timedwait\<close>: 0 (woken by a signal, or spuriously) or
  \<^verbatim>\<open>ETIMEDOUT\<close>.
\<close>

datatype wait_rc = Woken | ETIMEDOUT

text \<open>\<^verbatim>\<open>struct timeval\<close> and \<^verbatim>\<open>struct timespec\<close>.\<close>

record timeval =
  tv_sec :: int
  tv_usec :: int

record timespec =
  ts_sec :: int
  ts_nsec :: int

text \<open>
  What happens while the consumer sleeps in \<^verbatim>\<open>pthread_cond_timedwait\<close>: the mutex is
  released, so the main thread may append entries and may raise the quit flag; the call
  then returns with its code.
\<close>

record 'e wait_outcome =
  rc :: wait_rc
  pushed :: "'e list"
  quit_raised :: bool

text \<open>
  What one pass of a consumer's loop takes from outside: the entries the main thread
  appended since the last pass released the mutex, the time \<^verbatim>\<open>gettimeofday\<close> returns, and
  the outcome of the wait, consulted only when the pass does wait.
\<close>

record 'e pass_in =
  before :: "'e list"
  now :: timeval
  wait :: "'e wait_outcome"

text \<open>
  A worker thread as \<^verbatim>\<open>main\<close> sees it, and the steps of the shutdown path of \<^verbatim>\<open>main\<close>
  in the order they are taken.
\<close>

datatype thread_state = Running | Exited

datatype worker = Capture_worker | Playback_worker

datatype shutdown_step =
    Set_quit worker
  | Join worker
  | Cond_signal
  | Deinit_speex
  | Ao_close
  | Ao_shutdown
  | Freeaddrinfo_cli
  | Freeaddrinfo_srv

section \<open>The intrusive list of \<^verbatim>\<open>list.h\<close>\<close>

text \<open>
  Modelled from the spec: \<^verbatim>\<open>list.h\<close> is not among the sources. The queue is the list of
  its entries from the head; \<^verbatim>\<open>list_add_tail\<close> appends an entry at the tail,
  \<^verbatim>\<open>list_empty\<close> tests for no entry, \<^verbatim>\<open>list_del\<close> unlinks one entry.
\<close>

definition list_add_tail :: "'e \<Rightarrow> 'e list \<Rightarrow> 'e list" where
  "list_add_tail e q = q @ [e]"

definition list_empty :: "'e list \<Rightarrow> bool" where
  "list_empty q = (q = [])"

definition list_del :: "'e \<Rightarrow> 'e list \<Rightarrow> 'e list" where
  "list_del e q = remove1 e q"

section \<open>Raw PCM variant (\<^verbatim>\<open>src/sscall.c\<close>)\<close>

text \<open>\<^verbatim>\<open>struct pcm_buf\<close>: an owned copy of a datagram and its size.\<close>

record pcm_buf =
  buf :: "byte list"
  len :: nat

text \<open>
  The state the raw variant's threads share: the verbosity flag, the quit flag of the
  output thread, the queue \<^verbatim>\<open>pcm_buf.list\<close>, the blocks handed to \<^verbatim>\<open>ao_play\<close>
  (buffer and byte count), the deadlines passed to \<^verbatim>\<open>pthread_cond_timedwait\<close> and the
  lines printed; then the datagrams handed to \<^verbatim>\<open>sendto\<close>, the two threads, and the
  steps \<^verbatim>\<open>main\<close> has taken on its way out.
\<close>

record raw_state =
  raw_fverbose :: bool
  input_pcm_quit :: bool
  output_pcm_quit :: bool
  pcm_list :: "pcm_buf list"
  raw_played :: "byte list list"
  raw_waits :: "timespec list"
  raw_sent :: "byte list list"
  raw_stdout :: "string list"
  raw_stderr :: "string list"
  input_pcm_thread :: thread_state
  output_pcm_thread :: thread_state
  raw_history :: "shutdown_step list"

text \<open>
  \<^verbatim>\<open>sizeof(struct pcm_buf)\<close> where pointers and \<^verbatim>\<open>size_t\<close> take eight bytes: a pointer,
  a size and the two pointers of the list node.
\<close>

definition sizeof_pcm_buf :: nat where
  "sizeof_pcm_buf = 32"

text \<open>\<^verbatim>\<open>ao_play(device, buf, n)\<close>: the sink receives the first \<open>n\<close> bytes at \<open>buf\<close>.\<close>

definition raw_ao_play :: "byte list \<Rightarrow> nat \<Rightarrow> raw_state \<Rightarrow> raw_state" where
  "raw_ao_play b n st = st\<lparr>raw_played := raw_played st @ [take n b]\<rparr>"

text \<open>
  \<^verbatim>\<open>do_output_pcm\<close>: copy \<open>len\<close> bytes of the receive buffer into a fresh entry, append
  it to the queue and signal the condition variable. \<open>malloc_ok\<close> tells whether an
  allocation of the given size succeeds; a failed allocation ends the process through
  \<^verbatim>\<open>err(1, "malloc")\<close>, which is \<open>None\<close> here.
\<close>

definition do_output_pcm ::
  "(nat \<Rightarrow> bool) \<Rightarrow> byte list \<Rightarrow> nat \<Rightarrow> raw_state \<Rightarrow> raw_state option" where
  "do_output_pcm malloc_ok b n st =
     (if \<not> malloc_ok sizeof_pcm_buf then None
      else if \<not> malloc_ok n then None
      else
        let pctx = \<lparr>buf = take n b, len = n\<rparr>
        in Some (st\<lparr>pcm_list := list_add_tail pctx (pcm_list st)\<rparr>))"

text \<open>
  The body of \<^verbatim>\<open>list_for_each_safe\<close> in \<^verbatim>\<open>output_pcm\<close>, run over the entries found in
  the queue: play the entry, unlink it, free it.
\<close>

fun output_pcm_each :: "pcm_buf list \<Rightarrow> raw_state \<Rightarrow> raw_state" where
  "output_pcm_each [] st = st"
| "output_pcm_each (pctx # rest) st =
     output_pcm_each rest
       ((raw_ao_play (buf pctx) (len pctx) st)
          \<lparr>pcm_list := list_del pctx (pcm_list (raw_ao_play (buf pctx) (len pctx) st))\<rparr>)"

text \<open>
  One pass of the \<^verbatim>\<open>do ... while (1)\<close> loop of \<^verbatim>\<open>output_pcm\<close>. The result is
  \<open>(True, st')\<close> when the loop \<^verbatim>\<open>break\<close>s on the quit flag and \<open>(False, st')\<close> when it
  goes round again. \<open>tp\<close> is what \<^verbatim>\<open>gettimeofday\<close> returns and \<open>w\<close> what happens during
  the wait, consulted only when the queue is found empty.
\<close>

definition output_pcm_wait :: "timeval \<Rightarrow> pcm_buf wait_outcome \<Rightarrow> raw_state \<Rightarrow> raw_state" where
  "output_pcm_wait tp w st =
     (let ts = \<lparr>ts_sec = tv_sec tp + 3, ts_nsec = tv_usec tp * 1000\<rparr>
      in if list_empty (pcm_list st) then
           (let st1 = st\<lparr>raw_waits := raw_waits st @ [ts],
                         pcm_list := pcm_list st @ pushed w,
                         output_pcm_quit := (output_pcm_quit st \<or> quit_raised w)\<rparr>
            in if rc w = ETIMEDOUT \<and> raw_fverbose st1
               then st1\<lparr>raw_stdout := raw_stdout st1 @ [''Output thread is starving...'']\<rparr>
               else st1)
         else st)"

definition output_pcm_iter ::
  "timeval \<Rightarrow> pcm_buf wait_outcome \<Rightarrow> raw_state \<Rightarrow> bool \<times> raw_state" where
  "output_pcm_iter tp w st =
     (let st1 = output_pcm_wait tp w st
      in if output_pcm_quit st1 then (True, st1)
         else (False, output_pcm_each (pcm_list st1) st1))"

text \<open>
  The thread: passes of the loop, one for each element of the list of what comes from
  outside, until the quit flag is seen.
\<close>

fun output_pcm :: "pcm_buf pass_in list \<Rightarrow> raw_state \<Rightarrow> bool \<times> raw_state" where
  "output_pcm [] st = (False, st)"
| "output_pcm (i # rest) st =
     (case output_pcm_iter (now i) (wait i) (st\<lparr>pcm_list := pcm_list st @ before i\<rparr>) of
        (True, st1) \<Rightarrow> (True, st1)
      | (False, st1) \<Rightarrow> output_pcm rest st1)"

text \<open>
  One pass of the receive loop of the raw variant's \<^verbatim>\<open>main\<close>, after the check of
  \<^verbatim>\<open>handle_sigint\<close>: \<open>None\<close> is a \<^verbatim>\<open>recvfrom\<close> that returns \<open>-1\<close>, \<open>Some d\<close> one
  that stores a datagram, cut to the 8192 bytes of the receive buffer. Only a positive
  byte count is handed on. The line printed under the verbosity flag stands for the one
  of the source, which also names the byte count and the sender.
\<close>

definition PCM_BUF_SIZE :: nat where
  "PCM_BUF_SIZE = 8192"

definition raw_main_recv ::
  "(nat \<Rightarrow> bool) \<Rightarrow> byte list option \<Rightarrow> raw_state \<Rightarrow> raw_state option" where
  "raw_main_recv malloc_ok r st =
     (case r of
        None \<Rightarrow> Some st
      | Some d \<Rightarrow>
          (let b = take PCM_BUF_SIZE d; bytes = length b
           in if bytes > 0 then
                do_output_pcm malloc_ok b bytes
                  (if raw_fverbose st
                   then st\<lparr>raw_stdout := raw_stdout st @ [''Received bytes'']\<rparr> else st)
              else Some st))"

text \<open>
  One pass of the loop of \<^verbatim>\<open>input_pcm\<close>: leave on the quit flag, else read and send on
  what was read. \<open>r\<close> is what \<^verbatim>\<open>read\<close> stored (\<open>None\<close> for a return value of 0 or
  less) and \<open>ok\<close> whether \<^verbatim>\<open>sendto\<close> succeeds. The pause after each send is a matter
  of time only and has no counterpart here.
\<close>

definition input_pcm_iter :: "byte list option \<Rightarrow> bool \<Rightarrow> raw_state \<Rightarrow> bool \<times> raw_state" where
  "input_pcm_iter r ok st =
     (if input_pcm_quit st then (True, st)
      else
        (case r of
           None \<Rightarrow> (False, st)
         | Some d \<Rightarrow>
             (let b = take PCM_BUF_SIZE d
              in if length b > 0 then
                   (let st1 = st\<lparr>raw_sent := raw_sent st @ [b]\<rparr>
                    in (False, if ok then st1 else st1\<lparr>raw_stderr := raw_stderr st1 @ [''sendto'']\<rparr>))
                 else (False, st))))"

text \<open>
  Raising a quit flag, under its lock. \<^verbatim>\<open>pthread_join\<close> returns once the thread has left
  its loop, and the only way out of either loop is the quit flag: with the flag down
  the call does not return, which is \<open>None\<close>.
\<close>

definition raw_set_quit :: "worker \<Rightarrow> raw_state \<Rightarrow> raw_state" where
  "raw_set_quit t st =
     (case t of
        Capture_worker \<Rightarrow> st\<lparr>input_pcm_quit := True, raw_history := raw_history st @ [Set_quit t]\<rparr>
      | Playback_worker \<Rightarrow> st\<lparr>output_pcm_quit := True, raw_history := raw_history st @ [Set_quit t]\<rparr>)"

definition raw_pthread_join :: "worker \<Rightarrow> raw_state \<Rightarrow> raw_state option" where
  "raw_pthread_join t st =
     (case t of
        Capture_worker \<Rightarrow>
          (if input_pcm_thread st = Exited \<or> input_pcm_quit st
           then Some (st\<lparr>input_pcm_thread := Exited, raw_history := raw_history st @ [Join t]\<rparr>)
           else None)
      | Playback_worker \<Rightarrow>
          (if output_pcm_thread st = Exited \<or> output_pcm_quit st
           then Some (st\<lparr>output_pcm_thread := Exited, raw_history := raw_history st @ [Join t]\<rparr>)
           else None))"

text \<open>A step of the shutdown path that only has to be recorded.\<close>

definition raw_did :: "shutdown_step \<Rightarrow> raw_state \<Rightarrow> raw_state" where
  "raw_did a st = st\<lparr>raw_history := raw_history st @ [a]\<rparr>"

text \<open>The tail of the raw variant's \<^verbatim>\<open>main\<close>, from the end of the receive loop.\<close>

definition raw_main_shutdown :: "raw_state \<Rightarrow> raw_state option" where
  "raw_main_shutdown st =
     do {
       st1 \<leftarrow> raw_pthread_join Capture_worker (raw_set_quit Capture_worker st);
       st2 \<leftarrow> raw_pthread_join Playback_worker
                (raw_did Cond_signal (raw_set_quit Playback_worker st1));
       Some (raw_did Freeaddrinfo_srv (raw_did Freeaddrinfo_cli
               (raw_did Ao_shutdown (raw_did Ao_close st2))))
     }"

section \<open>Codec variant (\<^verbatim>\<open>src/src/sscall.c\<close>)\<close>

definition FRAME_SIZE :: nat where
  "FRAME_SIZE = 320"

definition COMPRESSED_BUF_SIZE :: nat where
  "COMPRESSED_BUF_SIZE = 1500"

subsection \<open>Byte order and the header\<close>

text \<open>
  The host's byte order decides how a \<^verbatim>\<open>uint32_t\<close> lies in memory. \<^verbatim>\<open>htonl\<close> is the
  identity on a big-endian host and swaps the four bytes on a little-endian one.
\<close>

datatype endian = Little | Big

definition le_bytes :: "u32 \<Rightarrow> byte list" where
  "le_bytes w = [ucast w, ucast (drop_bit 8 w), ucast (drop_bit 16 w), ucast (drop_bit 24 w)]"

definition le_word :: "byte list \<Rightarrow> u32" where
  "le_word bs = ucast (bs ! 0) OR push_bit 8 (ucast (bs ! 1)) OR push_bit 16 (ucast (bs ! 2))
                 OR push_bit 24 (ucast (bs ! 3))"

fun store32 :: "endian \<Rightarrow> u32 \<Rightarrow> byte list" where
  "store32 Little w = le_bytes w"
| "store32 Big w = rev (le_bytes w)"

fun load32 :: "endian \<Rightarrow> byte list \<Rightarrow> u32" where
  "load32 Little bs = le_word bs"
| "load32 Big bs = le_word (rev (take 4 bs))"

fun htonl :: "endian \<Rightarrow> u32 \<Rightarrow> u32" where
  "htonl Big w = w"
| "htonl Little w = le_word (rev (le_bytes w))"

text \<open>
  \<^verbatim>\<open>struct compressed_header\<close> is packed: \<open>sig\<close> at offset 0, \<open>timestamp\<close> at offset 4,
  eight bytes in all.
\<close>

definition sizeof_hdr :: nat where
  "sizeof_hdr = 8"

definition hdr_sig :: "endian \<Rightarrow> byte list \<Rightarrow> u32" where
  "hdr_sig e b = load32 e (take 4 b)"

definition hdr_timestamp :: "endian \<Rightarrow> byte list \<Rightarrow> u32" where
  "hdr_timestamp e b = load32 e (take 4 (drop 4 b))"

subsection \<open>The jitter buffer\<close>

text \<open>
  Modelled from the spec: \<^verbatim>\<open>speex_jitter_buffer.h\<close> and the codec are not among the
  sources. The jitter buffer is seen through its two calls: \<open>put\<close> takes a compressed
  frame and its timestamp and does not block, \<open>get\<close> hands out one frame's worth of
  samples whether or not a frame is present at the cursor. The state keeps the frames
  put so far, in arrival order, and the number of gets; the samples a get produces are
  those of the pluggable decoder \<open>dec\<close>, a function of both.
\<close>

record SpeexJitter =
  jitter_puts :: "(byte list \<times> u32) list"
  jitter_gets :: nat

type_synonym decoder = "(byte list \<times> u32) list \<Rightarrow> nat \<Rightarrow> sample list"

definition speex_jitter_put :: "SpeexJitter \<Rightarrow> byte list \<Rightarrow> u32 \<Rightarrow> SpeexJitter" where
  "speex_jitter_put j packet timestamp = j\<lparr>jitter_puts := jitter_puts j @ [(packet, timestamp)]\<rparr>"

text \<open>
  Writing samples into a C array from its start: the array keeps its size. Samples past
  its end are left out.
\<close>

definition write_array :: "'a list \<Rightarrow> 'a list \<Rightarrow> 'a list" where
  "write_array arr xs = take (length arr) xs @ drop (length xs) arr"

definition speex_jitter_get ::
  "decoder \<Rightarrow> SpeexJitter \<Rightarrow> sample list \<Rightarrow> sample list \<times> SpeexJitter" where
  "speex_jitter_get dec j out =
     (write_array out (dec (jitter_puts j) (jitter_gets j)), j\<lparr>jitter_gets := Suc (jitter_gets j)\<rparr>)"

subsection \<open>Shared state\<close>

text \<open>\<^verbatim>\<open>struct compressed_buf\<close>: the payload of a datagram and its size.\<close>

record compressed_buf =
  cbuf :: "byte list"
  clen :: size_t

text \<open>\<^verbatim>\<open>sizeof(struct compressed_buf)\<close>, laid out like \<^verbatim>\<open>struct pcm_buf\<close>.\<close>

definition sizeof_compressed_buf :: nat where
  "sizeof_compressed_buf = 32"

text \<open>
  The state the codec variant's threads share: the verbosity flag, the two quit flags,
  the queue \<^verbatim>\<open>compressed_buf.list\<close>, the jitter buffer, the blocks handed to
  \<^verbatim>\<open>ao_play\<close>, the deadlines passed to \<^verbatim>\<open>pthread_cond_timedwait\<close>, the datagrams handed
  to \<^verbatim>\<open>sendto\<close>, the lines written to the two output streams, the two threads, and the
  steps \<^verbatim>\<open>main\<close> has taken on its way out.
\<close>

record codec_state =
  fverbose :: bool
  capture_quit :: bool
  playback_quit :: bool
  compressed_list :: "compressed_buf list"
  speex_jitter :: SpeexJitter
  played :: "byte list list"
  waits :: "timespec list"
  sent :: "byte list list"
  stdout :: "string list"
  stderr :: "string list"
  capture_thread :: thread_state
  playback_thread :: thread_state
  history :: "shutdown_step list"

subsection \<open>The playback thread\<close>

text \<open>
  The bytes of an array of 16-bit samples in memory, and \<^verbatim>\<open>ao_play(device, pcm, n)\<close>,
  which hands the first \<open>n\<close> of them to the sink.
\<close>

fun store16 :: "endian \<Rightarrow> sample \<Rightarrow> byte list" where
  "store16 Little s = [ucast s, ucast (drop_bit 8 s)]"
| "store16 Big s = [ucast (drop_bit 8 s), ucast s]"

definition pcm_bytes :: "endian \<Rightarrow> sample list \<Rightarrow> byte list" where
  "pcm_bytes e pcm = concat (map (store16 e) pcm)"

definition ao_play :: "byte list \<Rightarrow> nat \<Rightarrow> codec_state \<Rightarrow> codec_state" where
  "ao_play b n st = st\<lparr>played := played st @ [take n b]\<rparr>"

text \<open>\<^verbatim>\<open>sizeof(pcm)\<close> for \<^verbatim>\<open>spx_int16_t pcm[FRAME_SIZE]\<close>.\<close>

definition sizeof_pcm :: nat where
  "sizeof_pcm = FRAME_SIZE * 2"

text \<open>
  The body of \<^verbatim>\<open>list_for_each_safe\<close> in \<^verbatim>\<open>playback\<close>, run over the entries found in the
  queue: one \<^verbatim>\<open>speex_jitter_get\<close> into the local array \<open>pcm\<close>, one \<^verbatim>\<open>ao_play\<close> of the
  whole array, then the entry is unlinked and freed. The entry's payload is not read.
  A put the main thread makes between two gets of one drain is not followed: it could
  only change what the decoder is given, and \<open>dec\<close> is arbitrary in all that follows.
\<close>

fun playback_each ::
  "endian \<Rightarrow> decoder \<Rightarrow> compressed_buf list \<Rightarrow> sample list \<times> codec_state \<Rightarrow>
     sample list \<times> codec_state" where
  "playback_each e dec [] (pcm, st) = (pcm, st)"
| "playback_each e dec (c # rest) (pcm, st) =
     (let (pcm1, j1) = speex_jitter_get dec (speex_jitter st) pcm;
          st1 = st\<lparr>speex_jitter := j1\<rparr>;
          st2 = ao_play (pcm_bytes e pcm1) sizeof_pcm st1;
          st3 = st2\<lparr>compressed_list := list_del c (compressed_list st2)\<rparr>
      in playback_each e dec rest (pcm1, st3))"

text \<open>
  What the main thread leaves behind for each datagram it handles while the playback
  thread does not hold the queue's mutex: a frame put into the jitter buffer with its
  timestamp, and an entry appended to the queue.
\<close>

definition arrive :: "(compressed_buf \<times> u32) list \<Rightarrow> codec_state \<Rightarrow> codec_state" where
  "arrive xs st =
     st\<lparr>compressed_list := compressed_list st @ map fst xs,
        speex_jitter := (speex_jitter st)
          \<lparr>jitter_puts := jitter_puts (speex_jitter st) @ map (\<lambda>(c, t). (cbuf c, t)) xs\<rparr>\<rparr>"

text \<open>
  The first half of a pass of the loop of \<^verbatim>\<open>playback\<close>: the deadline is three seconds
  after \<^verbatim>\<open>gettimeofday\<close>, and the thread waits only when it finds the queue empty.
\<close>

definition playback_wait ::
  "timeval \<Rightarrow> (compressed_buf \<times> u32) wait_outcome \<Rightarrow> codec_state \<Rightarrow> codec_state" where
  "playback_wait tp w st =
     (let ts = \<lparr>ts_sec = tv_sec tp + 3, ts_nsec = tv_usec tp * 1000\<rparr>
      in if list_empty (compressed_list st) then
           (let st0 = arrive (pushed w) st;
                st1 = st0\<lparr>waits := waits st0 @ [ts],
                          playback_quit := (playback_quit st0 \<or> quit_raised w)\<rparr>
            in if rc w = ETIMEDOUT \<and> fverbose st1
               then st1\<lparr>stdout := stdout st1 @ [''Output thread is starving...'']\<rparr>
               else st1)
         else st)"

text \<open>
  One pass of the loop: \<open>(True, _)\<close> when it \<^verbatim>\<open>break\<close>s on the quit flag, \<open>(False, _)\<close>
  when it goes round again.
\<close>

definition playback_iter ::
  "endian \<Rightarrow> decoder \<Rightarrow> timeval \<Rightarrow> (compressed_buf \<times> u32) wait_outcome \<Rightarrow>
     sample list \<times> codec_state \<Rightarrow> bool \<times> sample list \<times> codec_state" where
  "playback_iter e dec tp w ps =
     (let st1 = playback_wait tp w (snd ps)
      in if playback_quit st1 then (True, fst ps, st1)
         else (False, playback_each e dec (compressed_list st1) (fst ps, st1)))"

text \<open>
  The thread: passes of the loop, one for each element of the list of what comes from
  outside, until the quit flag is seen. \<open>pcm0\<close> is what the local array holds at entry.
\<close>

fun playback_loop ::
  "endian \<Rightarrow> decoder \<Rightarrow> (compressed_buf \<times> u32) pass_in list \<Rightarrow>
     sample list \<times> codec_state \<Rightarrow> bool \<times> sample list \<times> codec_state" where
  "playback_loop e dec [] ps = (False, ps)"
| "playback_loop e dec (i # rest) ps =
     (case playback_iter e dec (now i) (wait i) (fst ps, arrive (before i) (snd ps)) of
        (True, ps1) \<Rightarrow> (True, ps1)
      | (False, ps1) \<Rightarrow> playback_loop e dec rest ps1)"

definition playback ::
  "endian \<Rightarrow> decoder \<Rightarrow> (compressed_buf \<times> u32) pass_in list \<Rightarrow> sample list \<Rightarrow>
     codec_state \<Rightarrow> bool \<times> sample list \<times> codec_state" where
  "playback e dec ins pcm0 st = playback_loop e dec ins (pcm0, st)"

subsection \<open>The receive path\<close>

definition enqueue_for_playback :: "compressed_buf \<Rightarrow> codec_state \<Rightarrow> codec_state" where
  "enqueue_for_playback c st = st\<lparr>compressed_list := list_add_tail c (compressed_list st)\<rparr>"

text \<open>
  How \<^verbatim>\<open>process_compressed_packet\<close> can end other than by returning: \<^verbatim>\<open>err(1, "malloc")\<close>
  after a failed allocation, or a \<^verbatim>\<open>memcpy\<close> that runs past the receive buffer, which C
  leaves undefined.
\<close>

datatype fault = Err_malloc | Out_of_bounds

text \<open>
  \<^verbatim>\<open>process_compressed_packet(buf, len)\<close>: \<open>b\<close> is the receive buffer of \<^verbatim>\<open>main\<close> and
  \<open>n\<close> the byte count of the datagram in it. The payload size is \<open>n - 8\<close> in
  \<^verbatim>\<open>size_t\<close>, which wraps below 8. Neither the size nor the signature is examined.
\<close>

definition process_compressed_packet ::
  "endian \<Rightarrow> (nat \<Rightarrow> bool) \<Rightarrow> byte list \<Rightarrow> size_t \<Rightarrow> codec_state \<Rightarrow> fault + codec_state" where
  "process_compressed_packet e malloc_ok b n st =
     (if \<not> malloc_ok sizeof_compressed_buf then Inl Err_malloc
      else
        let l = n - word_of_nat sizeof_hdr
        in if \<not> malloc_ok (unat l) then Inl Err_malloc
           else if length b < sizeof_hdr + unat l then Inl Out_of_bounds
           else
             let c = \<lparr>cbuf = take (unat l) (drop sizeof_hdr b), clen = l\<rparr>;
                 recv_timestamp = hdr_timestamp e b;
                 j = speex_jitter_put (speex_jitter st) (cbuf c) recv_timestamp
             in Inr (enqueue_for_playback c (st\<lparr>speex_jitter := j\<rparr>)))"

text \<open>
  One pass of the receive loop of \<^verbatim>\<open>main\<close>, after the check of \<^verbatim>\<open>handle_sigint\<close>.
  \<open>None\<close> is a \<^verbatim>\<open>recvfrom\<close> that returns \<open>-1\<close>; \<open>Some d\<close> stores the datagram \<open>d\<close>, cut
  to the size of the buffer, at the start of the buffer and returns its byte count.
\<close>

definition recvfrom :: "nat \<Rightarrow> byte list \<Rightarrow> byte list \<Rightarrow> byte list \<times> nat" where
  "recvfrom cap b d = (take cap d @ drop (length (take cap d)) b, length (take cap d))"

definition codec_main_recv ::
  "endian \<Rightarrow> (nat \<Rightarrow> bool) \<Rightarrow> byte list option \<Rightarrow> byte list \<times> codec_state \<Rightarrow>
     fault + byte list \<times> codec_state" where
  "codec_main_recv e malloc_ok r bs =
     (case r of
        None \<Rightarrow> Inr bs
      | Some d \<Rightarrow>
          (let (b, bytes) = recvfrom COMPRESSED_BUF_SIZE (fst bs) d
           in if bytes > 0 then
                (case process_compressed_packet e malloc_ok b (word_of_nat bytes)
                        (if fverbose (snd bs)
                         then (snd bs)\<lparr>stdout := stdout (snd bs) @ [''Received bytes'']\<rparr>
                         else snd bs) of
                   Inl f \<Rightarrow> Inl f
                 | Inr st \<Rightarrow> Inr (b, st))
              else Inr (b, snd bs)))"

subsection \<open>The capture thread\<close>

text \<open>
  What one pass of the loop of \<^verbatim>\<open>capture\<close> takes from outside: the return value of
  \<^verbatim>\<open>read\<close>, the bytes the encoder holds for the frame, and whether \<^verbatim>\<open>sendto\<close> succeeds.
\<close>

record capture_in =
  inbytes :: int
  encoded :: "byte list"
  sendto_ok :: bool

text \<open>\<^verbatim>\<open>speex_bits_write(bits, out, max_len)\<close> writes at most \<open>max_len\<close> bytes.\<close>

definition speex_bits_write :: "byte list \<Rightarrow> nat \<Rightarrow> byte list" where
  "speex_bits_write bits max_len = take max_len bits"

text \<open>
  The frame \<^verbatim>\<open>capture\<close> builds in \<open>outbuf\<close> and hands to \<^verbatim>\<open>sendto\<close>: the signature
  through \<^verbatim>\<open>htonl\<close>, the timestamp as it lies in memory, then the encoded bytes;
  \<open>outbytes + sizeof(*hdr)\<close> bytes are sent.
\<close>

definition capture_frame :: "endian \<Rightarrow> u32 \<Rightarrow> byte list \<Rightarrow> byte list" where
  "capture_frame e timestamp bits =
     (let payload = speex_bits_write bits (COMPRESSED_BUF_SIZE - sizeof_hdr);
          outbytes = length payload;
          outbuf = store32 e (htonl e 0xcafebabe) @ store32 e timestamp @ payload
      in take (outbytes + sizeof_hdr) outbuf)"

text \<open>
  One pass of the loop, on the local \<open>timestamp\<close> (an \<^verbatim>\<open>int\<close>, here with two's-complement
  wrap-around) and the shared state.
\<close>

definition capture_iter ::
  "endian \<Rightarrow> capture_in \<Rightarrow> u32 \<times> codec_state \<Rightarrow> bool \<times> u32 \<times> codec_state" where
  "capture_iter e ci ts =
     (if capture_quit (snd ts) then (True, ts)
      else if inbytes ci > 0 then
        (let st1 = (snd ts)\<lparr>sent := sent (snd ts) @ [capture_frame e (fst ts) (encoded ci)]\<rparr>;
             st2 = (if sendto_ok ci then st1 else st1\<lparr>stderr := stderr st1 @ [''sendto'']\<rparr>)
         in (False, fst ts + word_of_nat FRAME_SIZE, st2))
      else (False, ts))"

fun capture_loop ::
  "endian \<Rightarrow> capture_in list \<Rightarrow> u32 \<times> codec_state \<Rightarrow> bool \<times> u32 \<times> codec_state" where
  "capture_loop e [] ts = (False, ts)"
| "capture_loop e (ci # rest) ts =
     (case capture_iter e ci ts of
        (True, ts1) \<Rightarrow> (True, ts1)
      | (False, ts1) \<Rightarrow> capture_loop e rest ts1)"

text \<open>The thread: \<open>timestamp = 0\<close>, then the loop.\<close>

definition capture :: "endian \<Rightarrow> capture_in list \<Rightarrow> codec_state \<Rightarrow> bool \<times> u32 \<times> codec_state" where
  "capture e cis st = capture_loop e cis (0, st)"

subsection \<open>Shutdown\<close>

text \<open>
  As in the raw variant: raising a quit flag under its lock, and \<^verbatim>\<open>pthread_join\<close>, which
  returns only when the thread has left its loop on its quit flag.
\<close>

definition set_quit :: "worker \<Rightarrow> codec_state \<Rightarrow> codec_state" where
  "set_quit t st =
     (case t of
        Capture_worker \<Rightarrow> st\<lparr>capture_quit := True, history := history st @ [Set_quit t]\<rparr>
      | Playback_worker \<Rightarrow> st\<lparr>playback_quit := True, history := history st @ [Set_quit t]\<rparr>)"

definition pthread_join :: "worker \<Rightarrow> codec_state \<Rightarrow> codec_state option" where
  "pthread_join t st =
     (case t of
        Capture_worker \<Rightarrow>
          (if capture_thread st = Exited \<or> capture_quit st
           then Some (st\<lparr>capture_thread := Exited, history := history st @ [Join t]\<rparr>)
           else None)
      | Playback_worker \<Rightarrow>
          (if playback_thread st = Exited \<or> playback_quit st
           then Some (st\<lparr>playback_thread := Exited, history := history st @ [Join t]\<rparr>)
           else None))"

text \<open>A step of the shutdown path that only has to be recorded.\<close>

definition did :: "shutdown_step \<Rightarrow> codec_state \<Rightarrow> codec_state" where
  "did a st = st\<lparr>history := history st @ [a]\<rparr>"

definition deinit_speex :: "codec_state \<Rightarrow> codec_state" where
  "deinit_speex st = did Deinit_speex st"

definition deinit_ao :: "codec_state \<Rightarrow> codec_state" where
  "deinit_ao st = did Ao_shutdown (did Ao_close st)"

text \<open>The tail of the codec variant's \<^verbatim>\<open>main\<close>, from the end of the receive loop.\<close>

definition codec_main_shutdown :: "codec_state \<Rightarrow> codec_state option" where
  "codec_main_shutdown st =
     do {
       st1 \<leftarrow> pthread_join Capture_worker (set_quit Capture_worker st);
       st2 \<leftarrow> pthread_join Playback_worker (did Cond_signal (set_quit Playback_worker st1));
       Some (did Freeaddrinfo_srv (did Freeaddrinfo_cli (deinit_ao (deinit_speex st2))))
     }"

subsection \<open>Setup\<close>

text \<open>
  The options as \<^verbatim>\<open>getopt\<close> hands them over, each numeric one with the \<^verbatim>\<open>int\<close> its
  argument is stored as; \<open>Opt_bad\<close> is the \<^verbatim>\<open>'?'\<close> of an option that is not known.
\<close>

type_synonym c_int = "32 word"

datatype cli_opt = Opt_h | Opt_b c_int | Opt_c c_int | Opt_r c_int | Opt_d c_int | Opt_v | Opt_V
  | Opt_bad

text \<open>
  What setup does that can be seen from outside, in order. \<open>Ao_open_live\<close> carries the
  driver id and the bits, channels and rate of the sample format.
\<close>

datatype setup_step =
    Usage
  | Print_version
  | Errx string
  | Ao_open_live c_int c_int c_int c_int
  | Init_speex
  | Print_settings
  | Cli_socket
  | Srv_bind
  | Pthread_create worker
  | Set_nonblocking
  | Install_handlers

text \<open>The file-scope option variables, all zero at start, and what setup has done.\<close>

record proc =
  fbits :: c_int
  fchan :: c_int
  frate :: c_int
  fdevid :: c_int
  verbose :: bool
  steps :: "setup_step list"

definition proc0 :: proc where
  "proc0 = \<lparr>fbits = 0, fchan = 0, frate = 0, fdevid = 0, verbose = False, steps = []\<rparr>"

text \<open>What the calls of setup that can fail return.\<close>

record sys_env =
  default_driver :: c_int
  ao_open_ok :: bool
  cli_getaddrinfo_ok :: bool
  cli_socket_ok :: bool
  srv_getaddrinfo_ok :: bool
  srv_bind_ok :: bool
  playback_create_ok :: bool
  fcntl_ok :: bool
  capture_create_ok :: bool
  signal_ok :: bool

definition step :: "setup_step \<Rightarrow> proc \<Rightarrow> proc" where
  "step a p = p\<lparr>steps := steps p @ [a]\<rparr>"

text \<open>
  The \<^verbatim>\<open>getopt\<close> loop: \<open>Inl (status, p)\<close> is \<^verbatim>\<open>exit(status)\<close>, \<open>Inr p\<close> the end of the
  options.
\<close>

fun getopt_loop :: "cli_opt list \<Rightarrow> proc \<Rightarrow> nat \<times> proc + proc" where
  "getopt_loop [] p = Inr p"
| "getopt_loop (Opt_h # rest) p = Inl (0, step Usage p)"
| "getopt_loop (Opt_b v # rest) p = getopt_loop rest (p\<lparr>fbits := v\<rparr>)"
| "getopt_loop (Opt_c v # rest) p = getopt_loop rest (p\<lparr>fchan := v\<rparr>)"
| "getopt_loop (Opt_r v # rest) p = getopt_loop rest (p\<lparr>frate := v\<rparr>)"
| "getopt_loop (Opt_d v # rest) p = getopt_loop rest (p\<lparr>fdevid := v\<rparr>)"
| "getopt_loop (Opt_v # rest) p = getopt_loop rest (p\<lparr>verbose := True\<rparr>)"
| "getopt_loop (Opt_V # rest) p = Inl (0, step Print_version p)"
| "getopt_loop (Opt_bad # rest) p = Inl (1, p)"

text \<open>\<^verbatim>\<open>init_ao\<close>: a zero device id becomes the default driver; a failed open is fatal.\<close>

definition init_ao :: "sys_env \<Rightarrow> proc \<Rightarrow> nat \<times> proc + proc" where
  "init_ao env p =
     (let p1 = (if fdevid p = 0 then p\<lparr>fdevid := default_driver env\<rparr> else p);
          p2 = step (Ao_open_live (fdevid p1) (fbits p1) (fchan p1) (frate p1)) p1
      in if ao_open_ok env then Inr p2
         else Inl (1, step (Errx ''Error opening output device'') p2))"

text \<open>
  The codec variant's \<^verbatim>\<open>main\<close> from the default of the sample rate to the start of the
  receive loop.
\<close>

definition codec_main_start :: "sys_env \<Rightarrow> proc \<Rightarrow> nat \<times> proc + proc" where
  "codec_main_start env p2 =
     (case init_ao env (if frate p2 = 0 then p2\<lparr>frate := 16000\<rparr> else p2) of
        Inl x \<Rightarrow> Inl x
      | Inr p4 \<Rightarrow>
          (let p5 = (if verbose p4 then step Print_settings (step Init_speex p4)
                     else step Init_speex p4)
           in if \<not> cli_getaddrinfo_ok env then Inl (1, step (Errx ''getaddrinfo'') p5)
              else if \<not> cli_socket_ok env then Inl (1, step (Errx ''failed to bind socket'') p5)
              else
                let p6 = step Cli_socket p5
                in if \<not> srv_getaddrinfo_ok env then Inl (1, step (Errx ''getaddrinfo'') p6)
                   else if \<not> srv_bind_ok env
                   then Inl (1, step (Errx ''failed to bind socket'') p6)
                   else
                     let p7 = step Srv_bind p6
                     in if \<not> playback_create_ok env
                        then Inl (1, step (Errx ''pthread_create'') p7)
                        else
                          let p8 = step (Pthread_create Playback_worker) p7
                          in if \<not> fcntl_ok env then Inl (1, step (Errx ''fcntl'') p8)
                             else
                               let p9 = step Set_nonblocking p8
                               in if \<not> capture_create_ok env
                                  then Inl (1, step (Errx ''pthread_create'') p9)
                                  else
                                    let p10 = step (Pthread_create Capture_worker) p9
                                    in if \<not> signal_ok env
                                       then Inl (1, step (Errx ''signal'') p10)
                                       else Inr (step Install_handlers p10)))"

text \<open>
  The codec variant's \<^verbatim>\<open>main\<close> up to the receive loop, for the options given and
  \<open>argc\<close> arguments left after them.
\<close>

definition codec_main_setup :: "sys_env \<Rightarrow> cli_opt list \<Rightarrow> nat \<Rightarrow> nat \<times> proc + proc" where
  "codec_main_setup env opts argc =
     (case getopt_loop opts proc0 of
        Inl x \<Rightarrow> Inl x
      | Inr p \<Rightarrow>
          if argc \<noteq> 3 then Inl (1, step Usage p)
          else
            let p1 = (if fbits p = 0 then p\<lparr>fbits := 16\<rparr> else p)
            in if fchan p1 = 0 then codec_main_start env (p1\<lparr>fchan := 1\<rparr>)
               else if fchan p1 \<noteq> 1
               then Inl (1, step (Errx ''Unsupported number of channels'') p1)
               else codec_main_start env p1)"

section \<open>Sequences of calls, and the framer as the spec words it\<close>

text \<open>A run of \<^verbatim>\<open>do_output_pcm\<close> calls with no pass of the consumer in between.\<close>

fun pushes :: "(nat \<Rightarrow> bool) \<Rightarrow> (byte list \<times> nat) list \<Rightarrow> raw_state \<Rightarrow> raw_state option" where
  "pushes malloc_ok [] st = Some st"
| "pushes malloc_ok ((b, n) # rest) st =
     (case do_output_pcm malloc_ok b n st of
        None \<Rightarrow> None
      | Some st1 \<Rightarrow> pushes malloc_ok rest st1)"

text \<open>The block \<^verbatim>\<open>output_pcm\<close> plays for a queue entry.\<close>

definition block_of :: "pcm_buf \<Rightarrow> byte list" where
  "block_of pctx = take (len pctx) (buf pctx)"

text \<open>
  The decode step as the spec words it: a datagram shorter than the header is
  truncated, one whose signature field is not the constant the sender stores there has
  a bad signature, and any other yields its timestamp and its payload.
\<close>

datatype FormatError = Truncated | BadSignature

definition spec_decode :: "endian \<Rightarrow> byte list \<Rightarrow> FormatError + u32 \<times> byte list" where
  "spec_decode e d =
     (if length d < sizeof_hdr then Inl Truncated
      else if hdr_sig e d \<noteq> htonl e 0xcafebabe then Inl BadSignature
      else Inr (hdr_timestamp e d, drop sizeof_hdr d))"

text \<open>States and inputs for running the definitions on.\<close>

definition raw0 :: raw_state where
  "raw0 = \<lparr>raw_fverbose = True, input_pcm_quit = False, output_pcm_quit = False,
            pcm_list = [], raw_played = [], raw_waits = [], raw_sent = [], raw_stdout = [],
            raw_stderr = [], input_pcm_thread = Running, output_pcm_thread = Running,
            raw_history = []\<rparr>"

definition codec0 :: codec_state where
  "codec0 = \<lparr>fverbose = True, capture_quit = False, playback_quit = False,
              compressed_list = [], speex_jitter = \<lparr>jitter_puts = [], jitter_gets = 0\<rparr>,
              played = [], waits = [], sent = [], stdout = [], stderr = [],
              capture_thread = Running, playback_thread = Running, history = []\<rparr>"

definition env_ok :: sys_env where
  "env_ok = \<lparr>default_driver = 7, ao_open_ok = True, cli_getaddrinfo_ok = True,
              cli_socket_ok = True, srv_getaddrinfo_ok = True, srv_bind_ok = True,
              playback_create_ok = True, fcntl_ok = True, capture_create_ok = True,
              signal_ok = True\<rparr>"

definition timed_out :: "'e wait_outcome" where
  "timed_out = \<lparr>rc = ETIMEDOUT, pushed = [], quit_raised = False\<rparr>"

text \<open>A decoder that answers every get with a frame of silence, and an allocator that never fails.\<close>

definition dec_silence :: decoder where
  "dec_silence ps n = replicate FRAME_SIZE 0"

definition always_ok :: "nat \<Rightarrow> bool" where
  "always_ok n = True"

definition two_entries :: "(compressed_buf \<times> u32) pass_in" where
  "two_entries =
     \<lparr>before = [(\<lparr>cbuf = [1, 2, 3], clen = 3\<rparr>, 0), (\<lparr>cbuf = [], clen = 0\<rparr>, 320)],
      now = \<lparr>tv_sec = 5, tv_usec = 0\<rparr>, wait = timed_out\<rparr>"

text \<open>Three passes of the capture loop, and a datagram whose signature field is zero.\<close>

definition three_reads :: "capture_in list" where
  "three_reads =
     [\<lparr>inbytes = 640, encoded = [9], sendto_ok = True\<rparr>,
      \<lparr>inbytes = - 1, encoded = [], sendto_ok = True\<rparr>,
      \<lparr>inbytes = 640, encoded = [7, 7], sendto_ok = False\<rparr>]"

definition bad_sig_datagram :: "byte list" where
  "bad_sig_datagram = [0, 0, 0, 0, 7, 0, 0, 0, 0x41]"

text \<open>
  Reading the outcome of setup: the steps taken, the channel count of a step that opens
  the device, and whether a step starts a worker thread.
\<close>

definition steps_of :: "nat \<times> proc + proc \<Rightarrow> setup_step list" where
  "steps_of r = (case r of Inl (status, p) \<Rightarrow> steps p | Inr p \<Rightarrow> steps p)"

fun open_channels :: "setup_step \<Rightarrow> c_int option" where
  "open_channels (Ao_open_live d b c r) = Some c"
| "open_channels s = None"

fun starts_worker :: "setup_step \<Rightarrow> bool" where
  "starts_worker (Pthread_create t) = True"
| "starts_worker s = False"

definition mono_or_closed :: "setup_step \<Rightarrow> bool" where
  "mono_or_closed s = (open_channels s = None \<or> open_channels s = Some 1)"

definition untouched :: "setup_step \<Rightarrow> bool" where
  "untouched s = (open_channels s = None \<and> \<not> starts_worker s)"

text \<open>
  A state with one entry queued and nothing put into the jitter buffer, and a datagram
  one byte short of a header.
\<close>

definition entry_without_put :: codec_state where
  "entry_without_put = codec0\<lparr>compressed_list := [\<lparr>cbuf = [1, 2, 3], clen = 3\<rparr>]\<rparr>"

definition seven_bytes :: "byte list" where
  "seven_bytes = [0xca, 0xfe, 0xba, 0xbe, 0, 0, 0]"

section \<open>Properties of the raw variant\<close>

lemma raw_ao_play_fields:
  "pcm_list (raw_ao_play b n st) = pcm_list st"
  "output_pcm_quit (raw_ao_play b n st) = output_pcm_quit st"
  "raw_stdout (raw_ao_play b n st) = raw_stdout st"
  "raw_waits (raw_ao_play b n st) = raw_waits st"
  "raw_fverbose (raw_ao_play b n st) = raw_fverbose st"
  by (simp_all add: raw_ao_play_def)

lemma output_pcm_each_append:
  "pcm_list st = q @ r \<Longrightarrow>
     pcm_list (output_pcm_each q st) = r \<and>
     raw_played (output_pcm_each q st) = raw_played st @ map (\<lambda>e. take (len e) (buf e)) q"
proof (induction q arbitrary: st)
  case Nil
  then show ?case by simp
next
  case (Cons e q)
  let ?st = "(raw_ao_play (buf e) (len e) st)
               \<lparr>pcm_list := list_del e (pcm_list (raw_ao_play (buf e) (len e) st))\<rparr>"
  have "pcm_list ?st = q @ r"
    using Cons.prems by (simp add: raw_ao_play_fields list_del_def)
  from Cons.IH [OF this] show ?case
    by (simp add: raw_ao_play_def)
qed

lemma do_output_pcm_Some:
  "do_output_pcm m b n st = Some st1 \<Longrightarrow>
     st1 = st\<lparr>pcm_list := pcm_list st @ [\<lparr>buf = take n b, len = n\<rparr>]\<rparr>"
  by (auto simp: do_output_pcm_def list_add_tail_def Let_def split: if_splits)

lemma pushes_Some:
  "pushes m xs st = Some st1 \<Longrightarrow>
     st1 = st\<lparr>pcm_list := pcm_list st @ map (\<lambda>(b, n). \<lparr>buf = take n b, len = n\<rparr>) xs\<rparr>"
proof (induction xs arbitrary: st)
  case Nil
  then show ?case by simp
next
  case (Cons x xs)
  obtain b n where x: "x = (b, n)" by (cases x)
  from Cons.prems x obtain st0 where a: "do_output_pcm m b n st = Some st0"
    and b: "pushes m xs st0 = Some st1"
    by (auto split: option.splits)
  from Cons.IH [OF b] do_output_pcm_Some [OF a] x show ?case by simp
qed

lemma output_pcm_each_all:
  "raw_played (output_pcm_each (pcm_list st) st) = raw_played st @ map block_of (pcm_list st) \<and>
   pcm_list (output_pcm_each (pcm_list st) st) = []"
  using output_pcm_each_append [of st "pcm_list st" "[]"]
  by (simp add: block_of_def)

text \<open>
  C3. The playback queue of the raw variant is first in, first out. After any run of
  \<^verbatim>\<open>do_output_pcm\<close> calls, a pass of \<^verbatim>\<open>output_pcm\<close> that does not leave on the quit flag
  hands to the sink the blocks that were already queued, then the pushed blocks in the
  order of the calls (then, if it found nothing at all and waited, what was pushed during
  the wait), and leaves the queue empty.
\<close>

theorem playback_queue_fifo:
  assumes "pushes malloc_ok xs st = Some st1"
    and "output_pcm_iter tp w st1 = (False, st2)"
  shows "raw_played st2 =
           raw_played st @ map block_of (pcm_list st) @ map (\<lambda>(b, n). take n b) xs @
             (if pcm_list st = [] \<and> xs = [] then map block_of (pushed w) else []) \<and>
         pcm_list st2 = []"
proof -
  let ?q = "pcm_list st @ map (\<lambda>(b, n). \<lparr>buf = take n b, len = n\<rparr>) xs"
  have st1: "st1 = st\<lparr>pcm_list := ?q\<rparr>"
    using pushes_Some [OF assms(1)] .
  have blk: "map block_of (map (\<lambda>(b, n). \<lparr>buf = take n b, len = n\<rparr>) xs) =
      map (\<lambda>(b, n). take n b) xs"
    by (induction xs) (auto simp: block_of_def)
  let ?w = "output_pcm_wait tp w st1"
  from assms(2) have st2: "st2 = output_pcm_each (pcm_list ?w) ?w"
    by (auto simp: output_pcm_iter_def Let_def split: if_splits)
  have w: "pcm_list ?w = ?q @ (if ?q = [] then pushed w else []) \<and> raw_played ?w = raw_played st"
    by (simp add: output_pcm_wait_def Let_def list_empty_def st1)
  show ?thesis
    using output_pcm_each_all [of ?w] w blk unfolding st2 by auto
qed

theorem playback_queue_fifo_witness:
  "raw_played (snd (output_pcm_iter \<lparr>tv_sec = 5, tv_usec = 0\<rparr> timed_out
      (the (pushes (\<lambda>n. True) [([1, 2], 2), ([3], 1), ([4, 5, 6], 3)] raw0)))) =
     [[1, 2], [3], [4, 5, 6]]"
proof -
  let ?xs = "[([1, 2], 2), ([3], 1), ([4, 5, 6 :: byte], 3 :: nat)]"
  obtain st1 where h1: "pushes (\<lambda>n. True) ?xs raw0 = Some st1"
    by (simp add: do_output_pcm_def)
  obtain st2 where h2: "output_pcm_iter \<lparr>tv_sec = 5, tv_usec = 0\<rparr> timed_out st1 = (False, st2)"
    using pushes_Some [OF h1]
    by (simp add: output_pcm_iter_def output_pcm_wait_def list_empty_def raw0_def Let_def)
  have "raw_played st2 = [[1, 2], [3], [4, 5, 6]]"
    using playback_queue_fifo [OF h1 h2] by (simp add: raw0_def block_of_def)
  then show ?thesis
    unfolding h1 option.sel h2 snd_conv .
qed

section \<open>Properties of the codec variant\<close>

lemma length_write_array: "length (write_array arr xs) = length arr"
  by (simp add: write_array_def)

lemma length_store16: "length (store16 e s) = 2"
  by (cases e) simp_all

lemma length_pcm_bytes: "length (pcm_bytes e pcm) = 2 * length pcm"
  by (induction pcm) (simp_all add: pcm_bytes_def length_store16)

lemma playback_each_props:
  assumes "length pcm = FRAME_SIZE" and "compressed_list st = q @ r"
    and "playback_each e dec q (pcm, st) = (pcm1, st1)"
  shows "length pcm1 = FRAME_SIZE \<and> compressed_list st1 = r \<and>
         (\<exists>blocks. played st1 = played st @ blocks \<and> length blocks = length q \<and>
            (\<forall>blk\<in>set blocks. length blk = 640)) \<and>
         jitter_gets (speex_jitter st1) = jitter_gets (speex_jitter st) + length q \<and>
         jitter_puts (speex_jitter st1) = jitter_puts (speex_jitter st) \<and>
         waits st1 = waits st \<and> stdout st1 = stdout st \<and> playback_quit st1 = playback_quit st"
  using assms
proof (induction q arbitrary: pcm st)
  case Nil
  then show ?case by simp
next
  case (Cons c q)
  obtain p j where g: "speex_jitter_get dec (speex_jitter st) pcm = (p, j)"
    by (cases "speex_jitter_get dec (speex_jitter st) pcm")
  let ?st2 = "ao_play (pcm_bytes e p) sizeof_pcm (st\<lparr>speex_jitter := j\<rparr>)"
  let ?st3 = "?st2\<lparr>compressed_list := list_del c (compressed_list ?st2)\<rparr>"
  have p: "length p = FRAME_SIZE"
    using g Cons.prems(1) by (auto simp: speex_jitter_get_def length_write_array)
  have j: "jitter_gets j = Suc (jitter_gets (speex_jitter st))"
     "jitter_puts j = jitter_puts (speex_jitter st)"
    using g by (auto simp: speex_jitter_get_def)
  have q: "compressed_list ?st3 = q @ r"
    using Cons.prems(2) by (simp add: ao_play_def list_del_def)
  have r: "playback_each e dec q (p, ?st3) = (pcm1, st1)"
    using Cons.prems(3) g by (simp add: Let_def)
  have blk: "played ?st3 = played st @ [take sizeof_pcm (pcm_bytes e p)]"
    by (simp add: ao_play_def)
  have len: "length (take sizeof_pcm (pcm_bytes e p)) = 640"
    by (simp add: length_pcm_bytes p sizeof_pcm_def FRAME_SIZE_def)
  from Cons.IH [OF p q r] obtain blocks where
    b: "played st1 = played ?st3 @ blocks" "length blocks = length q"
       "\<forall>blk\<in>set blocks. length blk = 640"
    by blast
  have "played st1 = played st @ (take sizeof_pcm (pcm_bytes e p) # blocks) \<and>
        length (take sizeof_pcm (pcm_bytes e p) # blocks) = length (c # q) \<and>
        (\<forall>blk\<in>set (take sizeof_pcm (pcm_bytes e p) # blocks). length blk = 640)"
    using b blk len by simp
  then have ex: "\<exists>blocks. played st1 = played st @ blocks \<and> length blocks = length (c # q) \<and>
            (\<forall>blk\<in>set blocks. length blk = 640)"
    by blast
  from Cons.IH [OF p q r] ex j show ?case
    by (simp add: ao_play_def)
qed

lemma playback_wait_fields:
  "played (playback_wait tp w st) = played st"
  "jitter_gets (speex_jitter (playback_wait tp w st)) = jitter_gets (speex_jitter st)"
  by (simp_all add: playback_wait_def arrive_def Let_def)

lemma arrive_fields:
  "played (arrive xs st) = played st"
  "jitter_gets (speex_jitter (arrive xs st)) = jitter_gets (speex_jitter st)"
  by (simp_all add: arrive_def)

lemma playback_iter_props:
  assumes "length pcm = FRAME_SIZE"
    and "playback_iter e dec tp w (pcm, st) = (b, pcm1, st1)"
  shows "length pcm1 = FRAME_SIZE \<and>
         (\<exists>blocks. played st1 = played st @ blocks \<and>
            length blocks = (if b then 0 else length (compressed_list (playback_wait tp w st))) \<and>
            (\<forall>blk\<in>set blocks. length blk = 640)) \<and>
         jitter_gets (speex_jitter st1) =
           jitter_gets (speex_jitter st) +
             (if b then 0 else length (compressed_list (playback_wait tp w st))) \<and>
         (\<not> b \<longrightarrow> compressed_list st1 = [])"
proof (cases "playback_quit (playback_wait tp w st)")
  case True
  with assms show ?thesis
    by (auto simp: playback_iter_def Let_def playback_wait_fields)
next
  case False
  let ?w = "playback_wait tp w st"
  from False assms(2) have e: "playback_each e dec (compressed_list ?w) (pcm, ?w) = (pcm1, st1)"
    and b: "\<not> b"
    by (auto simp: playback_iter_def Let_def)
  from playback_each_props [OF assms(1) _ e, of "[]"] b show ?thesis
    by (simp add: playback_wait_fields)
qed

lemma playback_loop_props:
  assumes "length pcm = FRAME_SIZE"
    and "playback_loop e dec ins (pcm, st) = (b, pcm1, st1)"
  shows "\<exists>blocks. played st1 = played st @ blocks \<and> (\<forall>blk\<in>set blocks. length blk = 640) \<and>
           jitter_gets (speex_jitter st1) = jitter_gets (speex_jitter st) + length blocks"
  using assms
proof (induction ins arbitrary: pcm st)
  case Nil
  then show ?case by simp
next
  case (Cons i ins)
  obtain b2 p2 s2 where it:
    "playback_iter e dec (now i) (wait i) (pcm, arrive (before i) st) = (b2, p2, s2)"
    by (cases "playback_iter e dec (now i) (wait i) (pcm, arrive (before i) st)") auto
  from playback_iter_props [OF Cons.prems(1) it] obtain blocks where
    p2: "length p2 = FRAME_SIZE" and
    b: "played s2 = played st @ blocks" "\<forall>blk\<in>set blocks. length blk = 640"
       "jitter_gets (speex_jitter s2) = jitter_gets (speex_jitter st) + length blocks"
    by (auto simp: arrive_fields)
  show ?case
  proof (cases b2)
    case True
    with Cons.prems(2) it have "st1 = s2" by simp
    with b show ?thesis by blast
  next
    case False
    with Cons.prems(2) it have "playback_loop e dec ins (p2, s2) = (b, pcm1, st1)" by simp
    from Cons.IH [OF p2 this] obtain more where
      m: "played st1 = played s2 @ more" "\<forall>blk\<in>set more. length blk = 640"
         "jitter_gets (speex_jitter st1) = jitter_gets (speex_jitter s2) + length more"
      by blast
    have "played st1 = played st @ (blocks @ more) \<and> (\<forall>blk\<in>set (blocks @ more). length blk = 640) \<and>
           jitter_gets (speex_jitter st1) = jitter_gets (speex_jitter st) + length (blocks @ more)"
      using b m by auto
    then show ?thesis by blast
  qed
qed


text \<open>
  C10. With the local array of 320 samples, every block the playback thread hands to
  the sink, over any run of passes of its loop, has exactly 640 bytes, whatever the
  entries in the queue hold; and a pass that does not leave on the quit flag writes
  exactly as many blocks as it finds entries in the queue (a pass that leaves writes
  none) and leaves the queue empty.
\<close>

theorem playback_writes_frame_blocks:
  assumes "length pcm0 = FRAME_SIZE"
  shows "take (length (played st)) (played (snd (snd (playback e dec ins pcm0 st)))) = played st \<and>
         (\<forall>blk\<in>set (drop (length (played st)) (played (snd (snd (playback e dec ins pcm0 st))))).
            length blk = 640) \<and>
         length (played (snd (snd (playback_iter e dec tp w (pcm0, st))))) =
           length (played st) +
             (if fst (playback_iter e dec tp w (pcm0, st)) then 0
              else length (compressed_list (playback_wait tp w st))) \<and>
         (\<not> fst (playback_iter e dec tp w (pcm0, st)) \<longrightarrow>
            compressed_list (snd (snd (playback_iter e dec tp w (pcm0, st)))) = [])"
proof -
  obtain b pcm1 st1 where l: "playback_loop e dec ins (pcm0, st) = (b, pcm1, st1)"
    by (cases "playback_loop e dec ins (pcm0, st)") auto
  obtain b2 pcm2 st2 where i: "playback_iter e dec tp w (pcm0, st) = (b2, pcm2, st2)"
    by (cases "playback_iter e dec tp w (pcm0, st)") auto
  from playback_loop_props [OF assms l] playback_iter_props [OF assms i]
  show ?thesis
    by (auto simp: playback_def l i)
qed

theorem playback_writes_frame_blocks_witness:
  "map length (played (snd (snd (playback Little dec_silence [two_entries]
      (replicate 320 0) codec0)))) = [640, 640]"
proof -
  let ?r = "played (snd (snd (playback Little dec_silence [two_entries] (replicate 320 0) codec0)))"
  have h: "length (replicate 320 (0 :: sample)) = FRAME_SIZE"
    by (simp add: FRAME_SIZE_def)
  have n: "length ?r = 2"
    by (simp add: playback_def playback_iter_def playback_wait_def arrive_def two_entries_def
        codec0_def list_empty_def Let_def speex_jitter_get_def ao_play_def list_del_def
        timed_out_def)
  have "\<forall>blk\<in>set ?r. length blk = 640"
    using playback_writes_frame_blocks [OF h, of codec0 Little dec_silence "[two_entries]"]
    by (simp add: codec0_def)
  with n show ?thesis
    by (cases ?r; cases "tl ?r") auto
qed

text \<open>
  C2, as amended. The playback thread calls \<^verbatim>\<open>speex_jitter_get\<close> once for each queue
  entry it drains and never otherwise: over any run of passes the gets and the blocks
  written grow by the same number; a pass that does not leave on the quit flag makes as
  many gets and writes as many blocks as it finds entries, and leaves the queue empty;
  a pass that finds the queue empty and is handed nothing during its wait makes no get
  and writes nothing. Every block a pass writes is the whole array of 320 samples, 640
  bytes, whatever the jitter buffer holds: a pass that finds one entry and a jitter
  buffer nothing was put into makes one get and writes one block of 640 bytes.
\<close>

theorem playback_gets_follow_queue:
  assumes "length pcm0 = FRAME_SIZE"
  shows "jitter_gets (speex_jitter (snd (snd (playback e dec ins pcm0 st)))) + length (played st) =
           jitter_gets (speex_jitter st) + length (played (snd (snd (playback e dec ins pcm0 st)))) \<and>
         jitter_gets (speex_jitter (snd (snd (playback_iter e dec tp w (pcm0, st))))) =
           jitter_gets (speex_jitter st) +
             (if fst (playback_iter e dec tp w (pcm0, st)) then 0
              else length (compressed_list (playback_wait tp w st))) \<and>
         length (played (snd (snd (playback_iter e dec tp w (pcm0, st))))) =
           length (played st) +
             (if fst (playback_iter e dec tp w (pcm0, st)) then 0
              else length (compressed_list (playback_wait tp w st))) \<and>
         (\<not> fst (playback_iter e dec tp w (pcm0, st)) \<longrightarrow>
            compressed_list (snd (snd (playback_iter e dec tp w (pcm0, st)))) = []) \<and>
         (compressed_list st = [] \<and> pushed w = [] \<longrightarrow>
            jitter_gets (speex_jitter (snd (snd (playback_iter e dec tp w (pcm0, st))))) =
              jitter_gets (speex_jitter st) \<and>
            played (snd (snd (playback_iter e dec tp w (pcm0, st)))) = played st) \<and>
         (\<forall>blk\<in>set (drop (length (played st))
                      (played (snd (snd (playback_iter e dec tp w (pcm0, st)))))).
            length blk = 640) \<and>
         (jitter_puts (speex_jitter st) = [] \<and> compressed_list st = [c] \<and> \<not> playback_quit st \<longrightarrow>
            jitter_gets (speex_jitter (snd (snd (playback_iter e dec tp w (pcm0, st))))) =
              Suc (jitter_gets (speex_jitter st)) \<and>
            (\<exists>blk. played (snd (snd (playback_iter e dec tp w (pcm0, st)))) = played st @ [blk] \<and>
               length blk = 640))"
proof -
  obtain b pcm1 st1 where l: "playback_loop e dec ins (pcm0, st) = (b, pcm1, st1)"
    by (cases "playback_loop e dec ins (pcm0, st)") auto
  obtain b2 pcm2 st2 where i: "playback_iter e dec tp w (pcm0, st) = (b2, pcm2, st2)"
    by (cases "playback_iter e dec tp w (pcm0, st)") auto
  note lp = playback_loop_props [OF assms l]
  from playback_iter_props [OF assms i] obtain blocks where ip:
    "played st2 = played st @ blocks"
    "length blocks = (if b2 then 0 else length (compressed_list (playback_wait tp w st)))"
    "\<forall>blk\<in>set blocks. length blk = 640"
    "jitter_gets (speex_jitter st2) =
       jitter_gets (speex_jitter st) +
         (if b2 then 0 else length (compressed_list (playback_wait tp w st)))"
    "\<not> b2 \<longrightarrow> compressed_list st2 = []"
    by blast
  have loop: "jitter_gets (speex_jitter st1) + length (played st) =
      jitter_gets (speex_jitter st) + length (played st1)"
    using lp by auto
  have empty: "compressed_list st = [] \<and> pushed w = [] \<Longrightarrow>
      compressed_list (playback_wait tp w st) = []"
    by (simp add: playback_wait_def arrive_def Let_def)
  have idle: "compressed_list st = [] \<and> pushed w = [] \<longrightarrow>
       jitter_gets (speex_jitter st2) = jitter_gets (speex_jitter st) \<and> played st2 = played st"
    using ip empty by (auto split: if_splits)
  have count: "length (played st2) =
      length (played st) + (if b2 then 0 else length (compressed_list (playback_wait tp w st)))"
    using ip(1,2) by simp
  have sizes: "\<forall>blk\<in>set (drop (length (played st)) (played st2)). length blk = 640"
    using ip(1,3) by simp
  have one: "jitter_puts (speex_jitter st) = [] \<and> compressed_list st = [c] \<and> \<not> playback_quit st \<longrightarrow>
      jitter_gets (speex_jitter st2) = Suc (jitter_gets (speex_jitter st)) \<and>
      (\<exists>blk. played st2 = played st @ [blk] \<and> length blk = 640)"
  proof (intro impI)
    assume a: "jitter_puts (speex_jitter st) = [] \<and> compressed_list st = [c] \<and> \<not> playback_quit st"
    then have w: "playback_wait tp w st = st"
      by (simp add: playback_wait_def list_empty_def)
    with a i have nb: "\<not> b2"
      by (auto simp: playback_iter_def Let_def split: if_splits)
    from ip(2) nb w a have "length blocks = 1" by simp
    then obtain blk where "blocks = [blk]"
      by (cases blocks) auto
    with ip(1,3,4) nb w a show "jitter_gets (speex_jitter st2) = Suc (jitter_gets (speex_jitter st)) \<and>
      (\<exists>blk. played st2 = played st @ [blk] \<and> length blk = 640)"
      by simp
  qed
  from loop ip(4,5) count idle sizes one show ?thesis
    unfolding playback_def l i by simp
qed

theorem playback_gets_follow_queue_witness:
  "jitter_gets (speex_jitter (snd (snd (playback_iter Little dec_silence \<lparr>tv_sec = 5, tv_usec = 0\<rparr>
      timed_out (replicate 320 0, codec0))))) = 0 \<and>
   jitter_gets (speex_jitter (snd (snd (playback Little dec_silence [two_entries]
      (replicate 320 0) codec0)))) = 2 \<and>
   jitter_gets (speex_jitter (snd (snd (playback_iter Little dec_silence \<lparr>tv_sec = 5, tv_usec = 0\<rparr>
      timed_out (replicate 320 0, entry_without_put))))) = 1 \<and>
   map length (played (snd (snd (playback_iter Little dec_silence \<lparr>tv_sec = 5, tv_usec = 0\<rparr>
      timed_out (replicate 320 0, entry_without_put))))) = [640]"
proof -
  have h: "length (replicate 320 (0 :: sample)) = FRAME_SIZE"
    by (simp add: FRAME_SIZE_def)
  have n: "length (played (snd (snd (playback Little dec_silence [two_entries]
      (replicate 320 0) codec0)))) = 2"
    by (simp add: playback_def playback_iter_def playback_wait_def arrive_def two_entries_def
        codec0_def list_empty_def Let_def speex_jitter_get_def ao_play_def list_del_def
        timed_out_def)
  have c: "compressed_list codec0 = [] \<and> pushed (timed_out :: (compressed_buf \<times> u32) wait_outcome) = []"
    by (simp add: codec0_def timed_out_def)
  have z: "jitter_puts (speex_jitter entry_without_put) = [] \<and>
      compressed_list entry_without_put = [\<lparr>cbuf = [1, 2, 3], clen = 3\<rparr>] \<and>
      \<not> playback_quit entry_without_put"
    "played entry_without_put = []" "jitter_gets (speex_jitter entry_without_put) = 0"
    by (simp_all add: entry_without_put_def codec0_def)
  note t1 = playback_gets_follow_queue [OF h, of Little dec_silence "[two_entries]" codec0
      "\<lparr>tv_sec = 5, tv_usec = 0\<rparr>" timed_out]
  note t2 = playback_gets_follow_queue [OF h, of Little dec_silence "[]" entry_without_put
      "\<lparr>tv_sec = 5, tv_usec = 0\<rparr>" timed_out "\<lparr>cbuf = [1, 2, 3], clen = 3\<rparr>"]
  have a: "jitter_gets (speex_jitter (snd (snd (playback_iter Little dec_silence
      \<lparr>tv_sec = 5, tv_usec = 0\<rparr> timed_out (replicate 320 0, codec0))))) = 0 \<and>
   jitter_gets (speex_jitter (snd (snd (playback Little dec_silence [two_entries]
      (replicate 320 0) codec0)))) = 2"
    using t1 n c by (simp add: codec0_def)
  have b: "jitter_gets (speex_jitter (snd (snd (playback_iter Little dec_silence
      \<lparr>tv_sec = 5, tv_usec = 0\<rparr> timed_out (replicate 320 0, entry_without_put))))) = 1 \<and>
   map length (played (snd (snd (playback_iter Little dec_silence \<lparr>tv_sec = 5, tv_usec = 0\<rparr>
      timed_out (replicate 320 0, entry_without_put))))) = [640]"
    using t2 z by auto
  from a b show ?thesis by simp
qed

text \<open>
  C2 as stated fails: a pass of the loop that finds the queue empty and times out, with
  the quit flag down, goes round again without a get and without a block for the sink.
\<close>

theorem playback_idle_pass_counterexample:
  "fst (playback_iter Little dec_silence \<lparr>tv_sec = 5, tv_usec = 0\<rparr> timed_out
     (replicate 320 0, codec0)) = False \<and>
   jitter_gets (speex_jitter (snd (snd (playback_iter Little dec_silence \<lparr>tv_sec = 5, tv_usec = 0\<rparr>
     timed_out (replicate 320 0, codec0))))) = 0 \<and>
   played (snd (snd (playback_iter Little dec_silence \<lparr>tv_sec = 5, tv_usec = 0\<rparr>
     timed_out (replicate 320 0, codec0)))) = []"
  by (simp add: playback_iter_def playback_wait_def arrive_def codec0_def timed_out_def
      list_empty_def Let_def)

section \<open>Shutdown and starvation\<close>

lemma capture_leaves_on_quit:
  "capture_quit st \<Longrightarrow> capture_iter e ci (ts, st) = (True, ts, st)"
  by (simp add: capture_iter_def)

lemma playback_leaves_on_quit:
  "playback_quit st \<Longrightarrow> fst (playback_iter e dec tp w (pcm, st)) = True"
  by (simp add: playback_iter_def playback_wait_def arrive_def Let_def)

lemma input_pcm_leaves_on_quit:
  "input_pcm_quit st \<Longrightarrow> input_pcm_iter r ok st = (True, st)"
  by (simp add: input_pcm_iter_def)

lemma output_pcm_leaves_on_quit:
  "output_pcm_quit st \<Longrightarrow> fst (output_pcm_iter tp w st) = True"
  by (simp add: output_pcm_iter_def output_pcm_wait_def Let_def)

lemma capture_stays_without_quit:
  "\<not> capture_quit st \<Longrightarrow> fst (capture_iter e ci (ts, st)) = False"
  by (simp add: capture_iter_def Let_def)

lemma join_blocks_without_quit:
  "capture_thread st = Running \<Longrightarrow> \<not> capture_quit st \<Longrightarrow> pthread_join Capture_worker st = None"
  "playback_thread st = Running \<Longrightarrow> \<not> playback_quit st \<Longrightarrow> pthread_join Playback_worker st = None"
  by (simp_all add: pthread_join_def)

text \<open>
  C6. From any state, the shutdown path of \<^verbatim>\<open>main\<close> runs to its end, in both variants,
  and takes its steps in this order: raise the capture thread's quit flag, join the
  capture thread, raise the playback thread's quit flag, signal the queue's condition
  variable, join the playback thread, then release the codec (codec variant only), the
  device and the address information. Each join returns because the flag it waits on
  was raised in the step before it, and both threads have left when it ends.
\<close>

theorem shutdown_order:
  "map_option history (codec_main_shutdown st) =
     Some (history st @
       [Set_quit Capture_worker, Join Capture_worker, Set_quit Playback_worker, Cond_signal,
        Join Playback_worker, Deinit_speex, Ao_close, Ao_shutdown, Freeaddrinfo_cli,
        Freeaddrinfo_srv]) \<and>
   map_option capture_thread (codec_main_shutdown st) = Some Exited \<and>
   map_option playback_thread (codec_main_shutdown st) = Some Exited \<and>
   map_option raw_history (raw_main_shutdown rst) =
     Some (raw_history rst @
       [Set_quit Capture_worker, Join Capture_worker, Set_quit Playback_worker, Cond_signal,
        Join Playback_worker, Ao_close, Ao_shutdown, Freeaddrinfo_cli, Freeaddrinfo_srv]) \<and>
   map_option input_pcm_thread (raw_main_shutdown rst) = Some Exited \<and>
   map_option output_pcm_thread (raw_main_shutdown rst) = Some Exited"
  by (simp add: codec_main_shutdown_def raw_main_shutdown_def pthread_join_def set_quit_def
      did_def deinit_speex_def deinit_ao_def raw_pthread_join_def raw_set_quit_def raw_did_def)

theorem shutdown_order_witness:
  "map_option history (codec_main_shutdown codec0) =
     Some [Set_quit Capture_worker, Join Capture_worker, Set_quit Playback_worker, Cond_signal,
        Join Playback_worker, Deinit_speex, Ao_close, Ao_shutdown, Freeaddrinfo_cli,
        Freeaddrinfo_srv] \<and>
   map_option raw_history (raw_main_shutdown raw0) =
     Some [Set_quit Capture_worker, Join Capture_worker, Set_quit Playback_worker, Cond_signal,
        Join Playback_worker, Ao_close, Ao_shutdown, Freeaddrinfo_cli, Freeaddrinfo_srv]"
  using shutdown_order [of codec0 raw0]
  by (simp add: codec0_def raw0_def)

lemma output_pcm_each_keeps:
  "raw_waits (output_pcm_each q st) = raw_waits st \<and>
   raw_stdout (output_pcm_each q st) = raw_stdout st \<and>
   raw_stderr (output_pcm_each q st) = raw_stderr st"
  by (induction q arbitrary: st) (simp_all add: raw_ao_play_def)

lemma playback_each_keeps:
  "waits (snd (playback_each e dec q (pcm, st))) = waits st \<and>
   stdout (snd (playback_each e dec q (pcm, st))) = stdout st \<and>
   stderr (snd (playback_each e dec q (pcm, st))) = stderr st"
  by (induction q arbitrary: pcm st) (simp_all add: ao_play_def Let_def split: prod.splits)

lemma output_pcm_wait_empty:
  "pcm_list st = [] \<Longrightarrow>
     output_pcm_wait tp w st =
       st\<lparr>raw_waits := raw_waits st @ [\<lparr>ts_sec = tv_sec tp + 3, ts_nsec = tv_usec tp * 1000\<rparr>],
          pcm_list := pushed w,
          output_pcm_quit := (output_pcm_quit st \<or> quit_raised w),
          raw_stdout := raw_stdout st @
            (if rc w = ETIMEDOUT \<and> raw_fverbose st then [''Output thread is starving...'']
             else [])\<rparr>"
  by (simp add: output_pcm_wait_def list_empty_def Let_def)

lemma playback_wait_empty:
  "compressed_list st = [] \<Longrightarrow>
     playback_wait tp w st =
       (arrive (pushed w) st)
         \<lparr>waits := waits st @ [\<lparr>ts_sec = tv_sec tp + 3, ts_nsec = tv_usec tp * 1000\<rparr>],
          playback_quit := (playback_quit st \<or> quit_raised w),
          stdout := stdout st @
            (if rc w = ETIMEDOUT \<and> fverbose st then [''Output thread is starving...'']
             else [])\<rparr>"
  by (simp add: playback_wait_def list_empty_def Let_def arrive_def)

lemma wait_nonempty:
  "pcm_list rst \<noteq> [] \<Longrightarrow> output_pcm_wait tp rw rst = rst"
  "compressed_list st \<noteq> [] \<Longrightarrow> playback_wait tp w st = st"
  by (simp_all add: output_pcm_wait_def playback_wait_def list_empty_def)

text \<open>
  C7. In both variants a pass of the consumer's loop waits only when it finds the queue
  empty, and then with a deadline exactly three seconds after the time it read. A wait
  that times out prints the starving line when the verbosity flag is up and nothing
  otherwise, and writes nothing to the error stream. After the wait, however it ended,
  the pass leaves the loop exactly when the quit flag is up (raised before or during
  the wait), and otherwise goes round again: with nothing pushed during the wait the
  sink and the queue are as they were.
\<close>

theorem starvation_is_not_an_error:
  "(pcm_list rst = [] \<longrightarrow>
      raw_waits (snd (output_pcm_iter tp rw rst)) =
        raw_waits rst @ [\<lparr>ts_sec = tv_sec tp + 3, ts_nsec = tv_usec tp * 1000\<rparr>] \<and>
      raw_stdout (snd (output_pcm_iter tp rw rst)) =
        raw_stdout rst @
          (if rc rw = ETIMEDOUT \<and> raw_fverbose rst then [''Output thread is starving...''] else []) \<and>
      raw_stderr (snd (output_pcm_iter tp rw rst)) = raw_stderr rst \<and>
      fst (output_pcm_iter tp rw rst) = (output_pcm_quit rst \<or> quit_raised rw) \<and>
      (pushed rw = [] \<longrightarrow>
         raw_played (snd (output_pcm_iter tp rw rst)) = raw_played rst \<and>
         pcm_list (snd (output_pcm_iter tp rw rst)) = [])) \<and>
   (pcm_list rst \<noteq> [] \<longrightarrow> raw_waits (snd (output_pcm_iter tp rw rst)) = raw_waits rst) \<and>
   (compressed_list st = [] \<longrightarrow>
      waits (snd (snd (playback_iter e dec tp w (pcm, st)))) =
        waits st @ [\<lparr>ts_sec = tv_sec tp + 3, ts_nsec = tv_usec tp * 1000\<rparr>] \<and>
      stdout (snd (snd (playback_iter e dec tp w (pcm, st)))) =
        stdout st @
          (if rc w = ETIMEDOUT \<and> fverbose st then [''Output thread is starving...''] else []) \<and>
      stderr (snd (snd (playback_iter e dec tp w (pcm, st)))) = stderr st \<and>
      fst (playback_iter e dec tp w (pcm, st)) = (playback_quit st \<or> quit_raised w) \<and>
      (pushed w = [] \<longrightarrow>
         played (snd (snd (playback_iter e dec tp w (pcm, st)))) = played st \<and>
         compressed_list (snd (snd (playback_iter e dec tp w (pcm, st)))) = [])) \<and>
   (compressed_list st \<noteq> [] \<longrightarrow>
      waits (snd (snd (playback_iter e dec tp w (pcm, st)))) = waits st)"
proof -
  have raw_empty: "pcm_list rst = [] \<longrightarrow>
      raw_waits (snd (output_pcm_iter tp rw rst)) =
        raw_waits rst @ [\<lparr>ts_sec = tv_sec tp + 3, ts_nsec = tv_usec tp * 1000\<rparr>] \<and>
      raw_stdout (snd (output_pcm_iter tp rw rst)) =
        raw_stdout rst @
          (if rc rw = ETIMEDOUT \<and> raw_fverbose rst then [''Output thread is starving...''] else []) \<and>
      raw_stderr (snd (output_pcm_iter tp rw rst)) = raw_stderr rst \<and>
      fst (output_pcm_iter tp rw rst) = (output_pcm_quit rst \<or> quit_raised rw) \<and>
      (pushed rw = [] \<longrightarrow>
         raw_played (snd (output_pcm_iter tp rw rst)) = raw_played rst \<and>
         pcm_list (snd (output_pcm_iter tp rw rst)) = [])"
    by (simp add: output_pcm_iter_def output_pcm_wait_empty output_pcm_each_keeps Let_def)
  have raw_full: "pcm_list rst \<noteq> [] \<longrightarrow>
      raw_waits (snd (output_pcm_iter tp rw rst)) = raw_waits rst"
    by (simp add: output_pcm_iter_def wait_nonempty output_pcm_each_keeps Let_def)
  have codec_empty: "compressed_list st = [] \<longrightarrow>
      waits (snd (snd (playback_iter e dec tp w (pcm, st)))) =
        waits st @ [\<lparr>ts_sec = tv_sec tp + 3, ts_nsec = tv_usec tp * 1000\<rparr>] \<and>
      stdout (snd (snd (playback_iter e dec tp w (pcm, st)))) =
        stdout st @
          (if rc w = ETIMEDOUT \<and> fverbose st then [''Output thread is starving...''] else []) \<and>
      stderr (snd (snd (playback_iter e dec tp w (pcm, st)))) = stderr st \<and>
      fst (playback_iter e dec tp w (pcm, st)) = (playback_quit st \<or> quit_raised w) \<and>
      (pushed w = [] \<longrightarrow>
         played (snd (snd (playback_iter e dec tp w (pcm, st)))) = played st \<and>
         compressed_list (snd (snd (playback_iter e dec tp w (pcm, st)))) = [])"
    by (simp add: playback_iter_def playback_wait_empty playback_each_keeps Let_def arrive_def)
  have codec_full: "compressed_list st \<noteq> [] \<longrightarrow>
      waits (snd (snd (playback_iter e dec tp w (pcm, st)))) = waits st"
    by (simp add: playback_iter_def wait_nonempty playback_each_keeps Let_def)
  from raw_empty raw_full codec_empty codec_full show ?thesis
    by blast
qed

theorem starvation_is_not_an_error_witness:
  "output_pcm_iter \<lparr>tv_sec = 5, tv_usec = 250\<rparr> timed_out raw0 =
     (False, raw0\<lparr>raw_waits := [\<lparr>ts_sec = 8, ts_nsec = 250000\<rparr>],
                   raw_stdout := [''Output thread is starving...'']\<rparr>) \<and>
   fst (playback_iter Little dec_silence \<lparr>tv_sec = 5, tv_usec = 250\<rparr> timed_out
     (replicate 320 0, codec0)) = False \<and>
   waits (snd (snd (playback_iter Little dec_silence \<lparr>tv_sec = 5, tv_usec = 250\<rparr> timed_out
     (replicate 320 0, codec0)))) = [\<lparr>ts_sec = 8, ts_nsec = 250000\<rparr>] \<and>
   stdout (snd (snd (playback_iter Little dec_silence \<lparr>tv_sec = 5, tv_usec = 250\<rparr> timed_out
     (replicate 320 0, codec0)))) = [''Output thread is starving...'']"
proof -
  have h: "pcm_list raw0 = []" "compressed_list codec0 = []"
    by (simp_all add: raw0_def codec0_def)
  have r: "output_pcm_iter \<lparr>tv_sec = 5, tv_usec = 250\<rparr> timed_out raw0 =
     (fst (output_pcm_iter \<lparr>tv_sec = 5, tv_usec = 250\<rparr> timed_out raw0),
      snd (output_pcm_iter \<lparr>tv_sec = 5, tv_usec = 250\<rparr> timed_out raw0))"
    by simp
  have s: "snd (output_pcm_iter \<lparr>tv_sec = 5, tv_usec = 250\<rparr> timed_out raw0) =
      raw0\<lparr>raw_waits := [\<lparr>ts_sec = 8, ts_nsec = 250000\<rparr>],
                   raw_stdout := [''Output thread is starving...'']\<rparr>"
    by (simp add: output_pcm_iter_def output_pcm_wait_def list_empty_def raw0_def timed_out_def
        Let_def)
  from starvation_is_not_an_error [of raw0 "\<lparr>tv_sec = 5, tv_usec = 250\<rparr>" timed_out codec0
      Little dec_silence timed_out "replicate 320 0"] h
  show ?thesis
    by (subst r) (simp add: s, simp add: raw0_def codec0_def timed_out_def)
qed

section \<open>Framing: the capture thread and the receive path\<close>

lemma le_word_le_bytes: "le_word (le_bytes w) = w"
  unfolding le_word_def le_bytes_def
  apply simp
proof (rule bit_word_eqI)
  fix n :: nat
  assume n: "n < LENGTH(32)"
  have c: "n < 8 \<or> (8 \<le> n \<and> n < 16) \<or> (16 \<le> n \<and> n < 24) \<or> (24 \<le> n \<and> n < 32)"
    using n by auto
  then show "bit (ucast (ucast w :: byte) OR push_bit 8 (ucast (ucast (drop_bit 8 w) :: byte)) OR
        push_bit 16 (ucast (ucast (drop_bit 16 w) :: byte)) OR
        push_bit 24 (ucast (ucast (drop_bit 24 w) :: byte)) :: u32) n = bit w n"
    by (auto simp add: bit_simps)
qed

lemma length_le_bytes: "length (le_bytes w) = 4"
  by (simp add: le_bytes_def)

lemma length_store32: "length (store32 e w) = 4"
  by (cases e) (simp_all add: length_le_bytes)

lemma load32_store32: "load32 e (store32 e w @ rest) = w"
proof (cases e)
  case Little
  have "le_word (le_bytes w @ rest) = le_word (le_bytes w)"
    by (simp add: le_word_def le_bytes_def)
  with Little show ?thesis by (simp add: le_word_le_bytes)
next
  case Big
  have "rev (take 4 (rev (le_bytes w) @ rest)) = le_bytes w"
    by (simp add: length_le_bytes)
  with Big show ?thesis by (simp add: le_word_le_bytes)
qed

lemma load32_store32_only: "load32 e (store32 e w) = w"
  using load32_store32 [of e w "[]"] by simp

lemma sig_on_the_wire: "store32 e (htonl e 0xcafebabe) = [0xca, 0xfe, 0xba, 0xbe]"
  by (cases e) (simp_all add: le_bytes_def le_word_def)

lemma capture_frame_eq:
  "capture_frame e ts bits =
     [0xca, 0xfe, 0xba, 0xbe] @ store32 e ts @ take (COMPRESSED_BUF_SIZE - sizeof_hdr) bits"
  by (simp add: capture_frame_def speex_bits_write_def sig_on_the_wire length_store32
      sizeof_hdr_def Let_def)

lemma hdr_timestamp_capture_frame: "hdr_timestamp e (capture_frame e ts bits) = ts"
  by (simp add: capture_frame_eq hdr_timestamp_def load32_store32_only length_store32)

lemma capture_loop_frames:
  assumes "\<not> capture_quit st"
  shows "\<exists>fr. fst (capture_loop e cis (ts, st)) = False \<and>
           fst (snd (capture_loop e cis (ts, st))) =
             ts + word_of_nat (FRAME_SIZE * length fr) \<and>
           sent (snd (snd (capture_loop e cis (ts, st)))) = sent st @ fr \<and>
           length fr = length (filter (\<lambda>ci. inbytes ci > 0) cis) \<and>
           (\<forall>n<length fr. fr ! n =
              capture_frame e (ts + word_of_nat (FRAME_SIZE * n))
                (encoded (filter (\<lambda>ci. inbytes ci > 0) cis ! n)))"
  using assms
proof (induction cis arbitrary: ts st)
  case Nil
  then show ?case by simp
next
  case (Cons ci cis)
  show ?case
  proof (cases "inbytes ci > 0")
    case False
    with Cons.prems have "capture_iter e ci (ts, st) = (False, ts, st)"
      by (simp add: capture_iter_def)
    with Cons.IH [OF Cons.prems, of ts] False show ?thesis
      by simp
  next
    case True
    let ?st1 = "st\<lparr>sent := sent st @ [capture_frame e ts (encoded ci)]\<rparr>"
    let ?st2 = "if sendto_ok ci then ?st1 else ?st1\<lparr>stderr := stderr ?st1 @ [''sendto'']\<rparr>"
    let ?ts2 = "ts + word_of_nat FRAME_SIZE :: u32"
    have it: "capture_iter e ci (ts, st) = (False, ?ts2, ?st2)"
      using True Cons.prems by (simp add: capture_iter_def Let_def)
    have q: "\<not> capture_quit ?st2" and s: "sent ?st2 = sent st @ [capture_frame e ts (encoded ci)]"
      using True Cons.prems by simp_all
    from Cons.IH [OF q, of ?ts2] obtain fr where ih:
      "fst (capture_loop e cis (?ts2, ?st2)) = False \<and>
       fst (snd (capture_loop e cis (?ts2, ?st2))) = ?ts2 + word_of_nat (FRAME_SIZE * length fr) \<and>
       sent (snd (snd (capture_loop e cis (?ts2, ?st2)))) = sent ?st2 @ fr \<and>
       length fr = length (filter (\<lambda>ci. inbytes ci > 0) cis) \<and>
       (\<forall>n<length fr. fr ! n =
              capture_frame e (?ts2 + word_of_nat (FRAME_SIZE * n))
                (encoded (filter (\<lambda>ci. inbytes ci > 0) cis ! n)))"
      by (rule exE)
    have fr:
      "fst (capture_loop e cis (?ts2, ?st2)) = False"
      "fst (snd (capture_loop e cis (?ts2, ?st2))) = ?ts2 + word_of_nat (FRAME_SIZE * length fr)"
      "sent (snd (snd (capture_loop e cis (?ts2, ?st2)))) = sent ?st2 @ fr"
      "length fr = length (filter (\<lambda>ci. inbytes ci > 0) cis)"
      "\<forall>n<length fr. fr ! n =
              capture_frame e (?ts2 + word_of_nat (FRAME_SIZE * n))
                (encoded (filter (\<lambda>ci. inbytes ci > 0) cis ! n))"
      using ih by (intro conjunct1 [OF ih] conjunct1 [OF conjunct2 [OF ih]]
          conjunct1 [OF conjunct2 [OF conjunct2 [OF ih]]]
          conjunct1 [OF conjunct2 [OF conjunct2 [OF conjunct2 [OF ih]]]]
          conjunct2 [OF conjunct2 [OF conjunct2 [OF conjunct2 [OF ih]]]])+
    let ?fr = "capture_frame e ts (encoded ci) # fr"
    have l: "capture_loop e (ci # cis) (ts, st) = capture_loop e cis (?ts2, ?st2)"
      by (simp add: it)
    have nth: "\<forall>n<length ?fr. ?fr ! n =
              capture_frame e (ts + word_of_nat (FRAME_SIZE * n))
                (encoded (filter (\<lambda>ci. inbytes ci > 0) (ci # cis) ! n))"
    proof (intro allI impI)
      fix n assume n: "n < length ?fr"
      show "?fr ! n = capture_frame e (ts + word_of_nat (FRAME_SIZE * n))
                (encoded (filter (\<lambda>ci. inbytes ci > 0) (ci # cis) ! n))"
      proof (cases n)
        case 0
        with True show ?thesis by simp
      next
        case (Suc m)
        with n fr(5) True show ?thesis
          by (simp add: algebra_simps)
      qed
    qed
    have "fst (capture_loop e (ci # cis) (ts, st)) = False \<and>
           fst (snd (capture_loop e (ci # cis) (ts, st))) =
             ts + word_of_nat (FRAME_SIZE * length ?fr) \<and>
           sent (snd (snd (capture_loop e (ci # cis) (ts, st)))) = sent st @ ?fr \<and>
           length ?fr = length (filter (\<lambda>ci. inbytes ci > 0) (ci # cis))"
      unfolding l using fr(1-4) s True by (simp add: algebra_simps)
    with nth show ?thesis by blast
  qed
qed

text \<open>
  C5. The timestamp of the capture thread counts samples. The thread starts it at 0;
  with the quit flag down, every pass whose read returns something sends one frame, and
  the \<open>n\<close>-th frame sent (from 0) carries \<open>n * 320\<close> in its header, in the 32 bits
  of the field, and as that very number while it stays below \<open>2\<^sup>3\<^sup>1\<close>; after \<open>k\<close>
  frames the counter stands at \<open>k * 320\<close>.
\<close>

theorem capture_timestamp_counts_samples:
  assumes "\<not> capture_quit st"
    and "n < length (filter (\<lambda>ci. inbytes ci > 0) cis)"
  shows "hdr_timestamp e (sent (snd (snd (capture e cis st))) ! (length (sent st) + n)) =
           word_of_nat (n * 320) \<and>
         length (sent (snd (snd (capture e cis st)))) =
           length (sent st) + length (filter (\<lambda>ci. inbytes ci > 0) cis) \<and>
         fst (snd (capture e cis st)) =
           word_of_nat (length (filter (\<lambda>ci. inbytes ci > 0) cis) * 320) \<and>
         (n * 320 < 2 ^ 31 \<longrightarrow>
            sint (hdr_timestamp e (sent (snd (snd (capture e cis st))) ! (length (sent st) + n))) =
              int (n * 320))"
proof -
  from capture_loop_frames [OF assms(1), of e cis 0] obtain fr where fr:
    "fst (snd (capture_loop e cis (0, st))) = word_of_nat (FRAME_SIZE * length fr)"
    "sent (snd (snd (capture_loop e cis (0, st)))) = sent st @ fr"
    "length fr = length (filter (\<lambda>ci. inbytes ci > 0) cis)"
    "\<forall>n<length fr. fr ! n =
        capture_frame e (word_of_nat (FRAME_SIZE * n))
          (encoded (filter (\<lambda>ci. inbytes ci > 0) cis ! n))"
    by auto
  have ts: "hdr_timestamp e (sent (snd (snd (capture e cis st))) ! (length (sent st) + n)) =
           word_of_nat (n * 320)"
    using fr assms(2)
    by (simp add: capture_def hdr_timestamp_capture_frame FRAME_SIZE_def mult.commute)
  have "sint (word_of_nat (n * 320) :: u32) = int (n * 320)" if "n * 320 < 2 ^ 31"
  proof -
    have "int (n * 320) < 2 ^ 31"
      using that by (metis of_nat_less_iff of_nat_numeral of_nat_power)
    then have "signed_take_bit 31 (int (n * 320)) = int (n * 320)"
      by (intro signed_take_bit_int_eq_self) simp_all
    then show ?thesis
      by (simp only: signed_of_nat) simp
  qed
  with ts have s: "n * 320 < 2 ^ 31 \<longrightarrow>
            sint (hdr_timestamp e (sent (snd (snd (capture e cis st))) ! (length (sent st) + n))) =
              int (n * 320)"
    by (simp only:) simp
  have rest: "length (sent (snd (snd (capture e cis st)))) =
           length (sent st) + length (filter (\<lambda>ci. inbytes ci > 0) cis) \<and>
         fst (snd (capture e cis st)) =
           word_of_nat (length (filter (\<lambda>ci. inbytes ci > 0) cis) * 320)"
    using fr by (simp add: capture_def FRAME_SIZE_def mult.commute)
  from ts s rest show ?thesis by blast
qed

theorem capture_timestamp_counts_samples_witness:
  "sent (snd (snd (capture Little three_reads codec0))) =
     [[0xca, 0xfe, 0xba, 0xbe, 0, 0, 0, 0, 9], [0xca, 0xfe, 0xba, 0xbe, 0x40, 1, 0, 0, 7, 7]] \<and>
   hdr_timestamp Little (sent (snd (snd (capture Little three_reads codec0))) ! 1) = 320"
proof -
  have h: "\<not> capture_quit codec0" "1 < length (filter (\<lambda>ci. inbytes ci > 0) three_reads)"
    by (simp_all add: codec0_def three_reads_def)
  have l: "length (sent codec0) + 1 = 1"
    by (simp add: codec0_def)
  have s: "sent (snd (snd (capture Little three_reads codec0))) =
     [[0xca, 0xfe, 0xba, 0xbe, 0, 0, 0, 0, 9], [0xca, 0xfe, 0xba, 0xbe, 0x40, 1, 0, 0, 7, 7]]"
    by (simp add: capture_def capture_iter_def three_reads_def codec0_def Let_def
        capture_frame_eq le_bytes_def FRAME_SIZE_def COMPRESSED_BUF_SIZE_def sizeof_hdr_def)
  from capture_timestamp_counts_samples [OF h, of Little] show ?thesis
    unfolding l using s by simp
qed

lemma unat_payload_size:
  assumes "sizeof_hdr \<le> k" and "k \<le> COMPRESSED_BUF_SIZE"
  shows "unat (word_of_nat k - word_of_nat sizeof_hdr :: size_t) = k - sizeof_hdr"
proof -
  have "(word_of_nat k - word_of_nat sizeof_hdr :: size_t) = word_of_nat (k - sizeof_hdr)"
    using assms(1) by (simp add: of_nat_diff)
  moreover have "k - sizeof_hdr < 2 ^ LENGTH(64)"
    using assms(2) by (simp add: COMPRESSED_BUF_SIZE_def)
  ultimately show ?thesis
    by (rule of_nat_inverse [OF sym])
qed

lemma process_compressed_packet_routes:
  assumes "sizeof_hdr \<le> k" and "k \<le> COMPRESSED_BUF_SIZE" and "k \<le> length b"
    and "malloc_ok sizeof_compressed_buf" and "malloc_ok (k - sizeof_hdr)"
  shows "process_compressed_packet e malloc_ok b (word_of_nat k) st =
     Inr (st\<lparr>speex_jitter := (speex_jitter st)
               \<lparr>jitter_puts := jitter_puts (speex_jitter st) @
                  [(take (k - sizeof_hdr) (drop sizeof_hdr b), hdr_timestamp e b)]\<rparr>,
             compressed_list := compressed_list st @
               [\<lparr>cbuf = take (k - sizeof_hdr) (drop sizeof_hdr b),
                 clen = word_of_nat k - word_of_nat sizeof_hdr\<rparr>]\<rparr>)"
proof -
  have u: "unat (word_of_nat k - word_of_nat sizeof_hdr :: size_t) = k - sizeof_hdr"
    using unat_payload_size [OF assms(1,2)] .
  have "\<not> length b < sizeof_hdr + (k - sizeof_hdr)"
    using assms(1,3) by simp
  then show ?thesis
    using assms(4,5)
    by (simp add: process_compressed_packet_def Let_def u enqueue_for_playback_def
        speex_jitter_put_def list_add_tail_def)
qed

text \<open>
  Below 8 bytes the payload size wraps to nearly \<open>2\<^sup>6\<^sup>4\<close>: the call does not return,
  whatever the allocator answers.
\<close>

lemma short_datagram_faults:
  assumes "0 < k" and "k < sizeof_hdr" and "length b \<le> COMPRESSED_BUF_SIZE"
  shows "isl (process_compressed_packet e malloc_ok b (word_of_nat k) st)"
proof -
  from assms(1,2) have "k = 1 \<or> k = 2 \<or> k = 3 \<or> k = 4 \<or> k = 5 \<or> k = 6 \<or> k = 7"
    by (auto simp: sizeof_hdr_def)
  then have "length b < sizeof_hdr + unat (word_of_nat k - word_of_nat sizeof_hdr :: size_t)"
    using assms(3)
    by (auto simp: sizeof_hdr_def COMPRESSED_BUF_SIZE_def unsigned_minus_1_eq_mask
        mask_eq_exp_minus_1)
  then show ?thesis
    by (simp add: process_compressed_packet_def Let_def)
qed

lemma codec_main_recv_routes:
  assumes "sizeof_hdr \<le> length d" and "length d \<le> COMPRESSED_BUF_SIZE"
    and "malloc_ok sizeof_compressed_buf" and "malloc_ok (length d - sizeof_hdr)"
  shows "\<exists>st1. codec_main_recv e malloc_ok (Some d) (b, st) = Inr (d @ drop (length d) b, st1) \<and>
           jitter_puts (speex_jitter st1) =
             jitter_puts (speex_jitter st) @ [(drop sizeof_hdr d, hdr_timestamp e d)] \<and>
           jitter_gets (speex_jitter st1) = jitter_gets (speex_jitter st) \<and>
           compressed_list st1 =
             compressed_list st @
               [\<lparr>cbuf = drop sizeof_hdr d, clen = word_of_nat (length d - sizeof_hdr)\<rparr>] \<and>
           played st1 = played st"
proof -
  let ?b = "d @ drop (length d) b"
  have r: "recvfrom COMPRESSED_BUF_SIZE b d = (?b, length d)"
    using assms(2) by (simp add: recvfrom_def)
  have pos: "d \<noteq> []"
    using assms(1) by (cases d) (simp_all add: sizeof_hdr_def)
  have t: "hdr_timestamp e ?b = hdr_timestamp e d"
    using assms(1) by (simp add: hdr_timestamp_def sizeof_hdr_def)
  have p: "take (length d - sizeof_hdr) (drop sizeof_hdr ?b) = drop sizeof_hdr d"
    using assms(1) by simp
  have c: "(word_of_nat (length d) - word_of_nat sizeof_hdr :: size_t) =
      word_of_nat (length d - sizeof_hdr)"
    using assms(1) by (simp add: of_nat_diff)
  have k: "length d \<le> length ?b"
    by simp
  note pr = process_compressed_packet_routes [OF assms(1,2) k assms(3,4), of e, unfolded t p c]
  show ?thesis
    by (simp add: codec_main_recv_def r pos pr)
qed

text \<open>
  What \<^verbatim>\<open>recvfrom\<close> cuts off never reaches the receive path, and a datagram of 1 to 7
  bytes does not come back from it.
\<close>

lemma codec_main_recv_cut:
  "codec_main_recv e malloc_ok (Some d) bs =
     codec_main_recv e malloc_ok (Some (take COMPRESSED_BUF_SIZE d)) bs"
  by (simp add: codec_main_recv_def recvfrom_def)

lemma codec_main_recv_short:
  assumes "length b = COMPRESSED_BUF_SIZE" and "d \<noteq> []" and "length d < sizeof_hdr"
  shows "isl (codec_main_recv e malloc_ok (Some d) (b, st))"
proof -
  have le: "length d \<le> COMPRESSED_BUF_SIZE"
    using assms(3) by (simp add: sizeof_hdr_def COMPRESSED_BUF_SIZE_def)
  then have r: "recvfrom COMPRESSED_BUF_SIZE b d = (d @ drop (length d) b, length d)"
    by (simp add: recvfrom_def)
  have k: "0 < length d"
    using assms(2) by simp
  have n: "length (d @ drop (length d) b) \<le> COMPRESSED_BUF_SIZE"
    using assms(1) le by simp
  let ?s = "if fverbose st then st\<lparr>stdout := stdout st @ [''Received bytes'']\<rparr> else st"
  have "isl (process_compressed_packet e malloc_ok (d @ drop (length d) b)
      (word_of_nat (length d)) ?s)"
    by (rule short_datagram_faults [OF k assms(3) n])
  then obtain f where "process_compressed_packet e malloc_ok (d @ drop (length d) b)
      (word_of_nat (length d)) ?s = Inl f"
    by (cases "process_compressed_packet e malloc_ok (d @ drop (length d) b)
      (word_of_nat (length d)) ?s") auto
  then show ?thesis
    using assms(2) by (cases "fverbose st") (simp_all add: codec_main_recv_def r)
qed

text \<open>
  C1, as amended. The receive path of the codec variant checks no signature. With the
  receive buffer of 1500 bytes, every datagram of at least 8 bytes, cut to the buffer,
  is routed whatever its first four bytes are: its bytes from offset 8 go into the
  jitter buffer with the timestamp read at offset 4, and an entry holding them is
  appended to the queue, provided the two allocations succeed. Every datagram that is
  routed, one after which the jitter buffer or the queue holds more than before, has at
  least 8 bytes; a receive of no bytes, or a failed one, routes nothing.
\<close>

theorem receive_path_checks_nothing:
  assumes "length b = COMPRESSED_BUF_SIZE"
  shows "(sizeof_hdr \<le> length d \<and> malloc_ok sizeof_compressed_buf \<and>
          malloc_ok (length (take COMPRESSED_BUF_SIZE d) - sizeof_hdr) \<longrightarrow>
            (\<exists>st1. codec_main_recv e malloc_ok (Some d) (b, st) =
                 Inr (take COMPRESSED_BUF_SIZE d @ drop (length (take COMPRESSED_BUF_SIZE d)) b, st1) \<and>
               jitter_puts (speex_jitter st1) =
                 jitter_puts (speex_jitter st) @
                   [(drop sizeof_hdr (take COMPRESSED_BUF_SIZE d), hdr_timestamp e d)] \<and>
               compressed_list st1 =
                 compressed_list st @
                   [\<lparr>cbuf = drop sizeof_hdr (take COMPRESSED_BUF_SIZE d),
                     clen = word_of_nat (length (take COMPRESSED_BUF_SIZE d) - sizeof_hdr)\<rparr>])) \<and>
         (\<forall>b1 st1. codec_main_recv e malloc_ok r (b, st) = Inr (b1, st1) \<and>
              (jitter_puts (speex_jitter st1) \<noteq> jitter_puts (speex_jitter st) \<or>
               compressed_list st1 \<noteq> compressed_list st) \<longrightarrow>
            (\<exists>d1. r = Some d1 \<and> sizeof_hdr \<le> length d1)) \<and>
         codec_main_recv e malloc_ok (Some []) (b, st) = Inr (b, st) \<and>
         codec_main_recv e malloc_ok None (b, st) = Inr (b, st)"
proof -
  let ?d = "take COMPRESSED_BUF_SIZE d"
  have empty: "codec_main_recv e malloc_ok (Some []) (b, st) = Inr (b, st)"
    by (simp add: codec_main_recv_def recvfrom_def)
  have none: "codec_main_recv e malloc_ok None (b, st) = Inr (b, st)"
    by (simp add: codec_main_recv_def)
  have routes: "sizeof_hdr \<le> length d \<and> malloc_ok sizeof_compressed_buf \<and>
          malloc_ok (length ?d - sizeof_hdr) \<longrightarrow>
            (\<exists>st1. codec_main_recv e malloc_ok (Some d) (b, st) =
                 Inr (?d @ drop (length ?d) b, st1) \<and>
               jitter_puts (speex_jitter st1) =
                 jitter_puts (speex_jitter st) @ [(drop sizeof_hdr ?d, hdr_timestamp e d)] \<and>
               compressed_list st1 =
                 compressed_list st @
                   [\<lparr>cbuf = drop sizeof_hdr ?d, clen = word_of_nat (length ?d - sizeof_hdr)\<rparr>])"
  proof (intro impI)
    assume a: "sizeof_hdr \<le> length d \<and> malloc_ok sizeof_compressed_buf \<and>
          malloc_ok (length ?d - sizeof_hdr)"
    then have h: "sizeof_hdr \<le> length ?d" "length ?d \<le> COMPRESSED_BUF_SIZE"
      by (simp_all add: sizeof_hdr_def COMPRESSED_BUF_SIZE_def)
    have t: "hdr_timestamp e ?d = hdr_timestamp e d"
      by (simp add: hdr_timestamp_def COMPRESSED_BUF_SIZE_def take_drop)
    from a codec_main_recv_routes [OF h, of malloc_ok e b st]
    show "\<exists>st1. codec_main_recv e malloc_ok (Some d) (b, st) =
                 Inr (?d @ drop (length ?d) b, st1) \<and>
               jitter_puts (speex_jitter st1) =
                 jitter_puts (speex_jitter st) @ [(drop sizeof_hdr ?d, hdr_timestamp e d)] \<and>
               compressed_list st1 =
                 compressed_list st @
                   [\<lparr>cbuf = drop sizeof_hdr ?d, clen = word_of_nat (length ?d - sizeof_hdr)\<rparr>]"
      unfolding t codec_main_recv_cut [of e malloc_ok d] by blast
  qed
  have only: "\<forall>b1 st1. codec_main_recv e malloc_ok r (b, st) = Inr (b1, st1) \<and>
              (jitter_puts (speex_jitter st1) \<noteq> jitter_puts (speex_jitter st) \<or>
               compressed_list st1 \<noteq> compressed_list st) \<longrightarrow>
            (\<exists>d1. r = Some d1 \<and> sizeof_hdr \<le> length d1)"
  proof (intro allI impI)
    fix b1 st1
    assume a: "codec_main_recv e malloc_ok r (b, st) = Inr (b1, st1) \<and>
              (jitter_puts (speex_jitter st1) \<noteq> jitter_puts (speex_jitter st) \<or>
               compressed_list st1 \<noteq> compressed_list st)"
    show "\<exists>d1. r = Some d1 \<and> sizeof_hdr \<le> length d1"
    proof (cases r)
      case None
      with a none show ?thesis by auto
    next
      case (Some d1)
      let ?c = "take COMPRESSED_BUF_SIZE d1"
      have cut: "codec_main_recv e malloc_ok (Some ?c) (b, st) = Inr (b1, st1)"
        using a Some codec_main_recv_cut [of e malloc_ok d1 "(b, st)"] by simp
      have ne: "?c \<noteq> []"
      proof
        assume "?c = []"
        then have "codec_main_recv e malloc_ok (Some ?c) (b, st) =
            codec_main_recv e malloc_ok (Some []) (b, st)"
          by (simp only:)
        with cut empty a show False by auto
      qed
      have "\<not> length ?c < sizeof_hdr"
      proof
        assume "length ?c < sizeof_hdr"
        from codec_main_recv_short [OF assms ne this, of e malloc_ok st] cut
        show False by simp
      qed
      then have "sizeof_hdr \<le> length d1"
        by simp
      with Some show ?thesis by simp
    qed
  qed
  from routes only empty none show ?thesis by blast
qed

text \<open>
  C1 as stated fails: a nine-byte datagram whose signature field is zero, which the
  decode step of the spec rejects, has its payload put into the jitter buffer and
  appended to the queue.
\<close>

theorem unchecked_signature_counterexample:
  "spec_decode Little bad_sig_datagram = Inl BadSignature \<and>
   map_sum id (\<lambda>r. (jitter_puts (speex_jitter (snd r)), map cbuf (compressed_list (snd r))))
     (codec_main_recv Little always_ok (Some bad_sig_datagram) (replicate 1500 0, codec0)) =
   Inr ([([0x41], 7)], [[0x41]])"
  by (simp add: spec_decode_def hdr_sig_def le_bytes_def bad_sig_datagram_def sizeof_hdr_def
      codec_main_recv_def
      recvfrom_def COMPRESSED_BUF_SIZE_def process_compressed_packet_def always_ok_def
      codec0_def Let_def hdr_timestamp_def le_word_def enqueue_for_playback_def
      speex_jitter_put_def list_add_tail_def)

theorem receive_path_checks_nothing_witness:
  "(\<exists>st1. codec_main_recv Little always_ok (Some bad_sig_datagram) (replicate 1500 0, codec0) =
      Inr (bad_sig_datagram @ replicate 1491 0, st1) \<and>
     jitter_puts (speex_jitter st1) = [([0x41], 7)] \<and>
     map cbuf (compressed_list st1) = [[0x41]]) \<and>
   isl (codec_main_recv Little always_ok (Some seven_bytes) (replicate 1500 0, codec0)) \<and>
   sizeof_hdr \<le> length bad_sig_datagram"
proof -
  have b: "length (replicate 1500 (0 :: byte)) = COMPRESSED_BUF_SIZE"
    by (simp add: COMPRESSED_BUF_SIZE_def)
  have c: "take COMPRESSED_BUF_SIZE bad_sig_datagram = bad_sig_datagram"
    by (simp add: bad_sig_datagram_def COMPRESSED_BUF_SIZE_def)
  have h: "sizeof_hdr \<le> length bad_sig_datagram \<and> always_ok sizeof_compressed_buf \<and>
      always_ok (length (take COMPRESSED_BUF_SIZE bad_sig_datagram) - sizeof_hdr)"
    by (simp add: bad_sig_datagram_def sizeof_hdr_def always_ok_def)
  have d: "drop sizeof_hdr bad_sig_datagram = [0x41]" "hdr_timestamp Little bad_sig_datagram = 7"
    "drop (length bad_sig_datagram) (replicate 1500 (0 :: byte)) = replicate 1491 0"
    by (simp_all add: bad_sig_datagram_def sizeof_hdr_def hdr_timestamp_def le_word_def)
  note t = receive_path_checks_nothing [OF b, of bad_sig_datagram always_ok Little codec0
      "Some bad_sig_datagram"]
  from t [THEN conjunct1, rule_format, OF h]
  have routed: "\<exists>st1. codec_main_recv Little always_ok (Some bad_sig_datagram)
        (replicate 1500 0, codec0) = Inr (bad_sig_datagram @ replicate 1491 0, st1) \<and>
     jitter_puts (speex_jitter st1) = [([0x41], 7)] \<and>
     map cbuf (compressed_list st1) = [[0x41]]"
    unfolding c d by (auto simp: codec0_def)
  have short: "isl (codec_main_recv Little always_ok (Some seven_bytes) (replicate 1500 0, codec0))"
    by (simp add: codec_main_recv_def recvfrom_def seven_bytes_def COMPRESSED_BUF_SIZE_def
        process_compressed_packet_def always_ok_def sizeof_hdr_def Let_def
        unsigned_minus_1_eq_mask mask_eq_exp_minus_1)
  from routed obtain st1 where st1:
    "codec_main_recv Little always_ok (Some bad_sig_datagram) (replicate 1500 0, codec0) =
       Inr (bad_sig_datagram @ replicate 1491 0, st1)"
    "jitter_puts (speex_jitter st1) = [([0x41], 7)]"
    by blast
  have "jitter_puts (speex_jitter st1) \<noteq> jitter_puts (speex_jitter codec0)"
    using st1(2) by (simp add: codec0_def)
  with t [THEN conjunct2, THEN conjunct1, rule_format, of "bad_sig_datagram @ replicate 1491 0" st1]
    st1(1)
  have size: "sizeof_hdr \<le> length bad_sig_datagram"
    by simp
  from routed short size show ?thesis by simp
qed

text \<open>
  C4. Framing round-trips. For a payload of at most 1492 bytes and any timestamp, the
  frame the capture thread sends is the four signature bytes, the four bytes of the
  timestamp, then the payload, so it is 8 bytes longer than the payload; and the
  receive path of a peer of the same byte order, given that frame, puts exactly that
  payload with exactly that timestamp into the jitter buffer and appends an entry with
  that payload to the queue (provided its two allocations succeed).
\<close>

theorem framing_round_trip:
  assumes "length p \<le> COMPRESSED_BUF_SIZE - sizeof_hdr"
    and "malloc_ok sizeof_compressed_buf" and "malloc_ok (length p)"
  shows "capture_frame e ts p = [0xca, 0xfe, 0xba, 0xbe] @ store32 e ts @ p \<and>
         length (capture_frame e ts p) = length p + sizeof_hdr \<and>
         (\<exists>b1 st1. codec_main_recv e malloc_ok (Some (capture_frame e ts p)) (b, st) = Inr (b1, st1) \<and>
            jitter_puts (speex_jitter st1) = jitter_puts (speex_jitter st) @ [(p, ts)] \<and>
            compressed_list st1 =
              compressed_list st @ [\<lparr>cbuf = p, clen = word_of_nat (length p)\<rparr>])"
proof -
  let ?d = "capture_frame e ts p"
  have f: "?d = [0xca, 0xfe, 0xba, 0xbe] @ store32 e ts @ p"
    using assms(1) by (simp add: capture_frame_eq)
  have n: "length ?d = length p + sizeof_hdr"
    unfolding f by (simp add: length_store32 sizeof_hdr_def)
  have h: "sizeof_hdr \<le> length ?d" "length ?d \<le> COMPRESSED_BUF_SIZE"
    "malloc_ok (length ?d - sizeof_hdr)"
    using assms(1,3) unfolding n by (simp_all add: COMPRESSED_BUF_SIZE_def sizeof_hdr_def)
  have pl: "drop sizeof_hdr ?d = p"
    unfolding f by (simp add: length_store32 sizeof_hdr_def)
  have m: "length ?d - sizeof_hdr = length p"
    unfolding n by simp
  from codec_main_recv_routes [OF h(1,2) assms(2) h(3), of e b st]
  have "\<exists>b1 st1. codec_main_recv e malloc_ok (Some ?d) (b, st) = Inr (b1, st1) \<and>
            jitter_puts (speex_jitter st1) = jitter_puts (speex_jitter st) @ [(p, ts)] \<and>
            compressed_list st1 =
              compressed_list st @ [\<lparr>cbuf = p, clen = word_of_nat (length p)\<rparr>]"
    unfolding pl m hdr_timestamp_capture_frame by blast
  with f n show ?thesis by blast
qed

text \<open>
  The timestamp travels as it lies in the sender's memory: a receiver of the other byte
  order reads the bytes the other way round.
\<close>

lemma timestamp_in_host_order:
  "hdr_timestamp Big (capture_frame Little 320 []) = 0x40010000"
  by (simp add: capture_frame_def speex_bits_write_def hdr_timestamp_def le_bytes_def
      le_word_def sizeof_hdr_def Let_def)

theorem framing_round_trip_witness:
  "capture_frame Big 640 [5, 6, 7] = [0xca, 0xfe, 0xba, 0xbe, 0, 0, 2, 0x80, 5, 6, 7] \<and>
   (\<exists>b1 st1. codec_main_recv Big always_ok (Some (capture_frame Big 640 [5, 6, 7]))
        (replicate 1500 0, codec0) = Inr (b1, st1) \<and>
      jitter_puts (speex_jitter st1) = [([5, 6, 7], 640)] \<and>
      compressed_list st1 = [\<lparr>cbuf = [5, 6, 7], clen = 3\<rparr>])"
proof -
  have h: "length [5, 6, 7 :: byte] \<le> COMPRESSED_BUF_SIZE - sizeof_hdr" "always_ok sizeof_compressed_buf"
    "always_ok (length [5, 6, 7 :: byte])"
    by (simp_all add: COMPRESSED_BUF_SIZE_def sizeof_hdr_def always_ok_def)
  have s: "store32 Big 640 = [0, 0, 2, 0x80]"
    by (simp add: le_bytes_def)
  note t = framing_round_trip [OF h, of Big 640 "replicate 1500 0" codec0, unfolded s]
  have cf: "capture_frame Big 640 [5, 6, 7] = [0xca, 0xfe, 0xba, 0xbe, 0, 0, 2, 0x80, 5, 6, 7]"
    using t by simp
  show ?thesis
    using t unfolding cf by (simp add: codec0_def)
qed

section \<open>Setup of the codec variant\<close>

lemma getopt_loop_steps:
  "list_all untouched (steps p) \<Longrightarrow> list_all untouched (steps_of (getopt_loop opts p))"
proof (induction opts p rule: getopt_loop.induct)
qed (simp_all add: steps_of_def step_def untouched_def)

lemma getopt_loop_Inr_steps:
  "getopt_loop opts p = Inr q \<Longrightarrow> steps q = steps p"
proof (induction opts p rule: getopt_loop.induct)
qed simp_all

lemma init_ao_steps:
  "steps_of (init_ao env p) =
     steps p @ Ao_open_live (if fdevid p = 0 then default_driver env else fdevid p)
       (fbits p) (fchan p) (frate p) #
       (if ao_open_ok env then [] else [Errx ''Error opening output device''])"
  by (simp add: init_ao_def steps_of_def step_def Let_def)

lemma init_ao_keeps:
  "init_ao env p = Inr q \<Longrightarrow>
     steps q = steps p @ [Ao_open_live (if fdevid p = 0 then default_driver env else fdevid p)
       (fbits p) (fchan p) (frate p)]"
  by (auto simp: init_ao_def step_def Let_def split: if_splits)

lemma codec_main_start_mono:
  assumes "fchan p = 1" and "list_all mono_or_closed (steps p)"
  shows "list_all mono_or_closed (steps_of (codec_main_start env p))"
proof (cases "init_ao env (if frate p = 0 then p\<lparr>frate := 16000\<rparr> else p)")
  case (Inl x)
  then show ?thesis
    using assms init_ao_steps [of env "if frate p = 0 then p\<lparr>frate := 16000\<rparr> else p"]
    by (auto simp: codec_main_start_def steps_of_def mono_or_closed_def split: if_splits)
next
  case (Inr q)
  from init_ao_keeps [OF Inr] assms have q: "list_all mono_or_closed (steps q)"
    by (auto simp: mono_or_closed_def split: if_splits)
  show ?thesis
    using q by (simp add: codec_main_start_def Inr steps_of_def step_def Let_def mono_or_closed_def)
qed

text \<open>
  C8, as amended. The codec variant never opens the device with a channel count other
  than 1, whatever the options, the arguments and the environment. When the options
  are read to their end and the channel count stored in \<^verbatim>\<open>fchan\<close> is neither 0 nor 1, the
  process exits with status 1 having opened no device and started no worker, and what
  it has printed is the unsupported-channels diagnostic when three arguments follow the
  options (the usage text otherwise). A channel count of 0, unset or given as such,
  becomes 1 and setup goes on, as it does for a channel count of 1.
\<close>

theorem codec_rejects_non_mono:
  "list_all mono_or_closed (steps_of (codec_main_setup env opts argc)) \<and>
   (\<forall>p. getopt_loop opts proc0 = Inr p \<longrightarrow>
      (fchan p \<noteq> 0 \<and> fchan p \<noteq> 1 \<longrightarrow>
         fst (projl (codec_main_setup env opts argc)) = 1 \<and> isl (codec_main_setup env opts argc) \<and>
         steps_of (codec_main_setup env opts argc) =
           (if argc = 3 then [Errx ''Unsupported number of channels''] else [Usage])) \<and>
      (fchan p = 0 \<and> argc = 3 \<longrightarrow>
         codec_main_setup env opts argc =
           codec_main_start env ((if fbits p = 0 then p\<lparr>fbits := 16\<rparr> else p)\<lparr>fchan := 1\<rparr>)) \<and>
      (fchan p = 1 \<and> argc = 3 \<longrightarrow>
         codec_main_setup env opts argc =
           codec_main_start env (if fbits p = 0 then p\<lparr>fbits := 16\<rparr> else p)))"
proof -
  have a: "list_all mono_or_closed (steps_of (codec_main_setup env opts argc))"
  proof (cases "getopt_loop opts proc0")
    case (Inl x)
    have "list_all untouched (steps_of (getopt_loop opts proc0))"
      by (rule getopt_loop_steps) (simp add: proc0_def)
    then have "list_all mono_or_closed (steps_of (getopt_loop opts proc0))"
      by (induction "steps_of (getopt_loop opts proc0)")
         (auto simp: untouched_def mono_or_closed_def list_all_iff)
    with Inl show ?thesis
      by (simp add: codec_main_setup_def)
  next
    case (Inr p)
    have s: "steps p = []"
      using getopt_loop_Inr_steps [OF Inr] by (simp add: proc0_def)
    let ?p1 = "if fbits p = 0 then p\<lparr>fbits := 16\<rparr> else p"
    have m0: "list_all mono_or_closed (steps_of (codec_main_start env (?p1\<lparr>fchan := 1\<rparr>)))"
      by (rule codec_main_start_mono) (simp_all add: s)
    have m1: "fchan ?p1 = 1 \<Longrightarrow> list_all mono_or_closed (steps_of (codec_main_start env ?p1))"
      by (rule codec_main_start_mono) (simp_all add: s)
    show ?thesis
      using m0 m1 s
      by (simp add: codec_main_setup_def Inr Let_def steps_of_def step_def mono_or_closed_def)
  qed
  have b: "\<forall>p. getopt_loop opts proc0 = Inr p \<longrightarrow>
      (fchan p \<noteq> 0 \<and> fchan p \<noteq> 1 \<longrightarrow>
         fst (projl (codec_main_setup env opts argc)) = 1 \<and> isl (codec_main_setup env opts argc) \<and>
         steps_of (codec_main_setup env opts argc) =
           (if argc = 3 then [Errx ''Unsupported number of channels''] else [Usage])) \<and>
      (fchan p = 0 \<and> argc = 3 \<longrightarrow>
         codec_main_setup env opts argc =
           codec_main_start env ((if fbits p = 0 then p\<lparr>fbits := 16\<rparr> else p)\<lparr>fchan := 1\<rparr>)) \<and>
      (fchan p = 1 \<and> argc = 3 \<longrightarrow>
         codec_main_setup env opts argc =
           codec_main_start env (if fbits p = 0 then p\<lparr>fbits := 16\<rparr> else p))"
  proof (intro allI impI)
    fix p assume p: "getopt_loop opts proc0 = Inr p"
    have s: "steps p = []"
      using getopt_loop_Inr_steps [OF p] by (simp add: proc0_def)
    show "(fchan p \<noteq> 0 \<and> fchan p \<noteq> 1 \<longrightarrow>
         fst (projl (codec_main_setup env opts argc)) = 1 \<and> isl (codec_main_setup env opts argc) \<and>
         steps_of (codec_main_setup env opts argc) =
           (if argc = 3 then [Errx ''Unsupported number of channels''] else [Usage])) \<and>
      (fchan p = 0 \<and> argc = 3 \<longrightarrow>
         codec_main_setup env opts argc =
           codec_main_start env ((if fbits p = 0 then p\<lparr>fbits := 16\<rparr> else p)\<lparr>fchan := 1\<rparr>)) \<and>
      (fchan p = 1 \<and> argc = 3 \<longrightarrow>
         codec_main_setup env opts argc =
           codec_main_start env (if fbits p = 0 then p\<lparr>fbits := 16\<rparr> else p))"
      by (simp add: codec_main_setup_def p Let_def steps_of_def step_def s)
  qed
  from a b show ?thesis by blast
qed

text \<open>
  C8 as stated fails: with the channel-count option set to 0 setup succeeds, opening
  the device with one channel and starting both workers; and with the option set to 2
  and followed by the help option the process exits with status 0.
\<close>

theorem codec_accepts_zero_channels_counterexample:
  "codec_main_setup env_ok [Opt_c 0] 3 =
     Inr \<lparr>fbits = 16, fchan = 1, frate = 16000, fdevid = 7, verbose = False,
          steps = [Ao_open_live 7 16 1 16000, Init_speex, Cli_socket, Srv_bind,
                   Pthread_create Playback_worker, Set_nonblocking,
                   Pthread_create Capture_worker, Install_handlers]\<rparr> \<and>
   codec_main_setup env_ok [Opt_c 2, Opt_h] 3 =
     Inl (0, \<lparr>fbits = 0, fchan = 2, frate = 0, fdevid = 0, verbose = False, steps = [Usage]\<rparr>)"
  by (simp add: codec_main_setup_def codec_main_start_def init_ao_def proc0_def env_ok_def
      step_def Let_def)

theorem codec_rejects_non_mono_witness:
  "isl (codec_main_setup env_ok [Opt_v, Opt_c 2] 3) \<and>
   fst (projl (codec_main_setup env_ok [Opt_v, Opt_c 2] 3)) = 1 \<and>
   steps_of (codec_main_setup env_ok [Opt_v, Opt_c 2] 3) = [Errx ''Unsupported number of channels''] \<and>
   codec_main_setup env_ok [] 3 = codec_main_start env_ok (proc0\<lparr>fbits := 16, fchan := 1\<rparr>)"
proof -
  let ?p = "\<lparr>fbits = 0, fchan = 2, frate = 0, fdevid = 0, verbose = True, steps = []\<rparr>"
  have g: "getopt_loop [Opt_v, Opt_c 2] proc0 = Inr ?p"
    by (simp add: proc0_def)
  have c: "fchan ?p \<noteq> 0 \<and> fchan ?p \<noteq> 1"
    by simp
  have g0: "getopt_loop [] proc0 = Inr proc0"
    by simp
  have c0: "fchan proc0 = 0 \<and> (3 :: nat) = 3" "fbits proc0 = 0"
    by (simp_all add: proc0_def)
  note t = codec_rejects_non_mono [of env_ok "[Opt_v, Opt_c 2]" 3, THEN conjunct2, rule_format,
      OF g, THEN conjunct1, rule_format, OF c]
  note t0 = codec_rejects_non_mono [of env_ok "[]" 3, THEN conjunct2, rule_format,
      OF g0, THEN conjunct2, THEN conjunct1, rule_format, OF c0(1)]
  from t t0 c0(2) show ?thesis
    by simp
qed

end
